theory Spec2Isabelle
  imports Main "HOL-Library.Word" "HOL-Library.Sublist"
begin

unbundle bit_operations_syntax

section \<open>Data model\<close>

text \<open>
  The service of \<^verbatim>\<open>main.go\<close> keeps todo items in one collection of a document store and
  serves four handlers over it. A \<^verbatim>\<open>primitive.ObjectID\<close> is an array of twelve bytes; it is
  held here as a list of bytes, and every identifier the handlers build from a request path
  has twelve of them (lemma \<open>ObjectIDFromHex_length\<close>). A \<^verbatim>\<open>time.Time\<close> is an instant,
  held as the number of milliseconds since the Unix epoch, the precision the store keeps.
\<close>

type_synonym byte = "8 word"
type_synonym ObjectID = "byte list"
type_synonym time = int

definition NilObjectID :: ObjectID where
  "NilObjectID = [0, 0, 0, 0, 0, 0, 0, 0, 0, 0, 0, 0]"

text \<open>The stored form of a todo (\<^verbatim>\<open>todoModel\<close>) and its wire form (\<^verbatim>\<open>todo\<close>).\<close>

record todoModel =
  ID :: ObjectID
  Title :: string
  Completed :: bool
  CreateAt :: time

record todo =
  ID :: string
  Title :: string
  Completed :: bool
  CreatedAt :: time

section \<open>Hexadecimal form of an identifier\<close>

text \<open>
  \<^verbatim>\<open>ObjectID.Hex\<close> writes every byte as two characters of \<^verbatim>\<open>0123456789abcdef\<close>, the high
  half first. \<^verbatim>\<open>ObjectIDFromHex\<close> wants exactly 24 characters and reads them back two at a
  time, in either letter case; \<^verbatim>\<open>IsValidObjectID\<close> holds when that succeeds.
\<close>

definition hextable :: string where
  "hextable = ''0123456789abcdef''"

definition encodeByte :: "byte \<Rightarrow> string" where
  "encodeByte b = [hextable ! unat (drop_bit 4 b), hextable ! unat (b AND 0x0f)]"

definition Hex :: "ObjectID \<Rightarrow> string" where
  "Hex oid = concat (map encodeByte oid)"

definition fromHexChar :: "char \<Rightarrow> byte option" where
  "fromHexChar c =
     (let n = of_char c :: nat in
      if of_char CHR ''0'' \<le> n \<and> n \<le> of_char CHR ''9'' then Some (of_nat (n - of_char CHR ''0''))
      else if of_char CHR ''a'' \<le> n \<and> n \<le> of_char CHR ''f'' then Some (of_nat (n - of_char CHR ''a'' + 10))
      else if of_char CHR ''A'' \<le> n \<and> n \<le> of_char CHR ''F'' then Some (of_nat (n - of_char CHR ''A'' + 10))
      else None)"

fun hexDecode :: "string \<Rightarrow> byte list option" where
  "hexDecode [] = Some []"
| "hexDecode [c] = None"
| "hexDecode (p # q # cs) =
     (case fromHexChar p of
        None \<Rightarrow> None
      | Some a \<Rightarrow>
          (case fromHexChar q of
             None \<Rightarrow> None
           | Some b \<Rightarrow>
               (case hexDecode cs of
                  None \<Rightarrow> None
                | Some bs \<Rightarrow> Some ((push_bit 4 a OR b) # bs))))"

datatype hexError = ErrInvalidHex | InvalidByteError

definition ObjectIDFromHex :: "string \<Rightarrow> hexError + ObjectID" where
  "ObjectIDFromHex s =
     (if length s \<noteq> 24 then Inl ErrInvalidHex
      else case hexDecode s of None \<Rightarrow> Inl InvalidByteError | Some oid \<Rightarrow> Inr oid)"

definition IsValidObjectID :: "string \<Rightarrow> bool" where
  "IsValidObjectID s = (case ObjectIDFromHex s of Inl e \<Rightarrow> False | Inr oid \<Rightarrow> True)"

section \<open>Trimming white space\<close>

text \<open>
  A Go string is a sequence of bytes read as UTF-8. \<^verbatim>\<open>strings.TrimSpace\<close> removes from both
  ends every white space character in the sense of Unicode: the six characters of ASCII
  (tab, line feed, vertical tab, form feed, carriage return, space), U+0085, U+00A0, U+1680,
  U+2000 to U+200A, U+2028, U+2029, U+202F, U+205F and U+3000. \<open>spaceEncodings\<close> lists
  their UTF-8 forms; a byte sequence that is not well-formed UTF-8 decodes to the
  replacement character, which is not white space, so trimming stops there.
\<close>

definition spaceEncodings :: "string list" where
  "spaceEncodings =
     [[CHR 0x09], [CHR 0x0A], [CHR 0x0B], [CHR 0x0C], [CHR 0x0D], [CHR 0x20],
      [CHR 0xC2, CHR 0x85], [CHR 0xC2, CHR 0xA0],
      [CHR 0xE1, CHR 0x9A, CHR 0x80],
      [CHR 0xE2, CHR 0x80, CHR 0x80], [CHR 0xE2, CHR 0x80, CHR 0x81],
      [CHR 0xE2, CHR 0x80, CHR 0x82], [CHR 0xE2, CHR 0x80, CHR 0x83],
      [CHR 0xE2, CHR 0x80, CHR 0x84], [CHR 0xE2, CHR 0x80, CHR 0x85],
      [CHR 0xE2, CHR 0x80, CHR 0x86], [CHR 0xE2, CHR 0x80, CHR 0x87],
      [CHR 0xE2, CHR 0x80, CHR 0x88], [CHR 0xE2, CHR 0x80, CHR 0x89],
      [CHR 0xE2, CHR 0x80, CHR 0x8A],
      [CHR 0xE2, CHR 0x80, CHR 0xA8], [CHR 0xE2, CHR 0x80, CHR 0xA9],
      [CHR 0xE2, CHR 0x80, CHR 0xAF],
      [CHR 0xE2, CHR 0x81, CHR 0x9F],
      [CHR 0xE3, CHR 0x80, CHR 0x80]]"

definition leadingSpace :: "string \<Rightarrow> string option" where
  "leadingSpace s = find (\<lambda>e. take (length e) s = e) spaceEncodings"

definition trailingSpace :: "string \<Rightarrow> string option" where
  "trailingSpace s =
     find (\<lambda>e. length e \<le> length s \<and> drop (length s - length e) s = e) spaceEncodings"

function TrimLeft :: "string \<Rightarrow> string" where
  "TrimLeft s =
     (case leadingSpace s of None \<Rightarrow> s | Some e \<Rightarrow> TrimLeft (drop (length e) s))"
  by pat_completeness auto
termination
proof (relation "measure length")
  show "wf (measure length)" by simp
next
  fix s e
  assume found: "leadingSpace s = Some e"
  have pick: "x \<in> set xs \<and> P x" if "find P xs = Some x"
    for P and xs :: "string list" and x
    using that by (induction xs) (auto split: if_splits)
  from found have "e \<in> set spaceEncodings" and "take (length e) s = e"
    unfolding leadingSpace_def by (auto dest: pick)
  then have "0 < length e" and "s \<noteq> []"
    by (auto simp: spaceEncodings_def)
  then show "(drop (length e) s, s) \<in> measure length" by simp
qed

function TrimRight :: "string \<Rightarrow> string" where
  "TrimRight s =
     (case trailingSpace s of
        None \<Rightarrow> s
      | Some e \<Rightarrow> TrimRight (take (length s - length e) s))"
  by pat_completeness auto
termination
proof (relation "measure length")
  show "wf (measure length)" by simp
next
  fix s e
  assume found: "trailingSpace s = Some e"
  have pick: "x \<in> set xs \<and> P x" if "find P xs = Some x"
    for P and xs :: "string list" and x
    using that by (induction xs) (auto split: if_splits)
  from found have "e \<in> set spaceEncodings" and "length e \<le> length s"
    unfolding trailingSpace_def by (auto dest: pick)
  then have "0 < length e" and "length e \<le> length s"
    by (auto simp: spaceEncodings_def)
  then have "length s - length e < length s" by arith
  then show "(take (length s - length e) s, s) \<in> measure length" by simp
qed

declare TrimLeft.simps [simp del]
declare TrimRight.simps [simp del]

definition TrimSpace :: "string \<Rightarrow> string" where
  "TrimSpace s = TrimRight (TrimLeft s)"

text \<open>
  A string is white space only when trimming it from either end leaves nothing. In UTF-8 a
  byte from 0x80 to 0xBF continues a character, and the first byte of a character tells
  how many bytes it has (up to three for the characters above).
\<close>

definition onlySpace :: "string \<Rightarrow> bool" where
  "onlySpace w = (TrimLeft w = [] \<and> TrimRight w = [])"

definition isCont :: "char \<Rightarrow> bool" where
  "isCont c = (0x80 \<le> (of_char c :: nat) \<and> (of_char c :: nat) < 0xC0)"

definition runeLen :: "char \<Rightarrow> nat" where
  "runeLen c =
     (let n = of_char c :: nat in if n < 0x80 then 1 else if n < 0xE0 then 2 else 3)"

section \<open>The document store\<close>

text \<open>
  The handlers reach the store through the calls \<^verbatim>\<open>Find\<close>, \<^verbatim>\<open>InsertOne\<close>, \<^verbatim>\<open>DeleteOne\<close> and
  \<^verbatim>\<open>UpdateOne\<close> of the database driver. The state of the store is the list of the documents
  of the collection, together with the log of the calls made so far, so that a statement
  can say that a handler made no call.

  What a handler reads from outside the request and the store is gathered in \<open>env\<close>: the
  error of the store call of this request when there is one (connection lost, timeout),
  the error of reading the cursor, the value \<^verbatim>\<open>primitive.NewObjectID()\<close> returns, the value
  \<^verbatim>\<open>time.Now()\<close> returns, and the identifier the driver gives to a document that is submitted
  without one.
\<close>

record bsonDoc =
  doc_id :: "ObjectID option"
  doc_title :: string
  doc_completed :: bool
  doc_createAt :: time

datatype bsonValue = BString string | BBool bool | BDoc "(string \<times> bsonValue) list"

datatype storeCall =
    CallFind
  | CallInsertOne bsonDoc
  | CallDeleteOne ObjectID
  | CallUpdateOne ObjectID "(string \<times> bsonValue) list"

record store =
  docs :: "todoModel list"
  calls :: "storeCall list"

record env =
  storeErr :: "string option"
  allErr :: "string option"
  newObjectID :: ObjectID
  now :: time
  driverID :: ObjectID

text \<open>
  The field \<^verbatim>\<open>ID\<close> of \<^verbatim>\<open>todoModel\<close> is tagged \<^verbatim>\<open>bson:"_id,omitempty"\<close>: the document built
  from the struct has no \<^verbatim>\<open>_id\<close> when the field is the zero identifier.
\<close>

definition marshal :: "todoModel \<Rightarrow> bsonDoc" where
  "marshal tm =
     \<lparr>doc_id = (if todoModel.ID tm = NilObjectID then None else Some (todoModel.ID tm)),
      doc_title = todoModel.Title tm,
      doc_completed = todoModel.Completed tm,
      doc_createAt = CreateAt tm\<rparr>"

definition logCall :: "storeCall \<Rightarrow> store \<Rightarrow> store" where
  "logCall c s = s\<lparr>calls := calls s @ [c]\<rparr>"

text \<open>
  Modelled from the spec: the driver's \<^verbatim>\<open>Collection.Find\<close> with the empty filter, followed
  by \<^verbatim>\<open>Cursor.All\<close> (library code, not in the repository). "FindAll: returns every record
  in the collection, no ordering guarantee, no pagination; fails with StoreError on
  connectivity/decoding failure." The records come in the order the collection holds them.
\<close>

definition Find :: "env \<Rightarrow> store \<Rightarrow> (string + todoModel list) \<times> store" where
  "Find e s =
     (case storeErr e of
        Some err \<Rightarrow> (Inl err, logCall CallFind s)
      | None \<Rightarrow> (Inr (docs s), logCall CallFind s))"

definition All :: "env \<Rightarrow> todoModel list \<Rightarrow> string + todoModel list" where
  "All e cur = (case allErr e of Some err \<Rightarrow> Inl err | None \<Rightarrow> Inr cur)"

text \<open>
  Modelled from the spec: the driver's \<^verbatim>\<open>Collection.InsertOne\<close> (library code, not in the
  repository). "Insert(record) -> id: persists a new record with a fresh identifier; fails
  with StoreError on write failure." A document that carries an \<^verbatim>\<open>_id\<close> is stored under
  it; one without gets the driver's; the identifier is unique in the collection, so a
  document whose identifier is already there is refused as a write failure.
\<close>

definition InsertOne :: "env \<Rightarrow> bsonDoc \<Rightarrow> store \<Rightarrow> (string + ObjectID) \<times> store" where
  "InsertOne e d s =
     (case storeErr e of
        Some err \<Rightarrow> (Inl err, logCall (CallInsertOne d) s)
      | None \<Rightarrow>
          (let oid = (case doc_id d of None \<Rightarrow> driverID e | Some i \<Rightarrow> i) in
           if oid \<in> set (map todoModel.ID (docs s))
           then (Inl ''duplicate key error'', logCall (CallInsertOne d) s)
           else (Inr oid,
                 logCall (CallInsertOne d)
                   (s\<lparr>docs := docs s @
                      [\<lparr>todoModel.ID = oid, todoModel.Title = doc_title d,
                        todoModel.Completed = doc_completed d,
                        CreateAt = doc_createAt d\<rparr>]\<rparr>))))"

text \<open>
  Modelled from the spec: the driver's \<^verbatim>\<open>Collection.DeleteOne\<close> with the filter
  \<^verbatim>\<open>{"_id": objectID}\<close> (library code, not in the repository). "DeleteByID(id) ->
  deletedCount: removes the record matching id; returns 0 if absent (not an error)."
  At most one document goes: the first that matches.
\<close>

fun deleteFirst :: "ObjectID \<Rightarrow> todoModel list \<Rightarrow> todoModel list" where
  "deleteFirst oid [] = []"
| "deleteFirst oid (d # ds) = (if todoModel.ID d = oid then ds else d # deleteFirst oid ds)"

definition DeleteOne :: "env \<Rightarrow> ObjectID \<Rightarrow> store \<Rightarrow> (string + nat) \<times> store" where
  "DeleteOne e oid s =
     (case storeErr e of
        Some err \<Rightarrow> (Inl err, logCall (CallDeleteOne oid) s)
      | None \<Rightarrow>
          (let ds = deleteFirst oid (docs s) in
           (Inr (length (docs s) - length ds), logCall (CallDeleteOne oid) (s\<lparr>docs := ds\<rparr>))))"

text \<open>
  Modelled from the spec: the driver's \<^verbatim>\<open>Collection.UpdateOne\<close> with the filter
  \<^verbatim>\<open>{"_id": objectID}\<close> and a \<^verbatim>\<open>$set\<close> document (library code, not in the repository).
  "UpdateByID(id, fields) -> void: applies a partial field update (title, completed) to the
  record matching id; silently succeeds even if id does not exist." The operator \<^verbatim>\<open>$set\<close>
  writes each field it names into the first document that matches and leaves the other
  fields of that document alone; of the fields it may name, a record has the title (a
  string) and the completed flag (a boolean).
\<close>

fun setField :: "string \<times> bsonValue \<Rightarrow> todoModel \<Rightarrow> todoModel" where
  "setField (k, BString v) d = (if k = ''title'' then d\<lparr>todoModel.Title := v\<rparr> else d)"
| "setField (k, BBool v) d = (if k = ''completed'' then d\<lparr>todoModel.Completed := v\<rparr> else d)"
| "setField (k, BDoc v) d = d"

fun applyOperator :: "string \<times> bsonValue \<Rightarrow> todoModel \<Rightarrow> todoModel" where
  "applyOperator (op, BDoc fs) d = (if op = ''$set'' then fold setField fs d else d)"
| "applyOperator (op, BString v) d = d"
| "applyOperator (op, BBool v) d = d"

fun updateFirst :: "ObjectID \<Rightarrow> (string \<times> bsonValue) list \<Rightarrow> todoModel list \<Rightarrow> todoModel list" where
  "updateFirst oid upd [] = []"
| "updateFirst oid upd (d # ds) =
     (if todoModel.ID d = oid then fold applyOperator upd d # ds
      else d # updateFirst oid upd ds)"

definition UpdateOne ::
  "env \<Rightarrow> ObjectID \<Rightarrow> (string \<times> bsonValue) list \<Rightarrow> store \<Rightarrow> (string + unit) \<times> store" where
  "UpdateOne e oid upd s =
     (case storeErr e of
        Some err \<Rightarrow> (Inl err, logCall (CallUpdateOne oid upd) s)
      | None \<Rightarrow> (Inr (), logCall (CallUpdateOne oid upd) (s\<lparr>docs := updateFirst oid upd (docs s)\<rparr>)))"

text \<open>
  The store keeps identifiers unique: no two documents of the collection have the same
  \<^verbatim>\<open>_id\<close>. The handlers preserve this (lemmas \<open>createTodos_uniqueIDs\<close>,
  \<open>updateTodo_uniqueIDs\<close>, \<open>deleteTodo_uniqueIDs\<close>).
\<close>

definition uniqueIDs :: "store \<Rightarrow> bool" where
  "uniqueIDs s = distinct (map todoModel.ID (docs s))"

section \<open>Requests and responses\<close>

text \<open>
  Of a request the handlers read the path parameter \<^verbatim>\<open>id\<close> and the body, which
  \<^verbatim>\<open>json.NewDecoder(r.Body).Decode(&t)\<close> turns into a \<^verbatim>\<open>todo\<close>, or fails on: \<open>decoded\<close> is
  \<open>None\<close> when it returns an error, and otherwise the struct it filled, a field missing
  from the body keeping its zero value (the empty string for the title).

  A response is a status code and a body. \<^verbatim>\<open>rnd.JSON\<close> writes the status first and then
  encodes the map it was handed; when the encoding fails nothing more is written, and the
  handlers do not look at the error it returns: the body is \<open>None\<close> then. Of the values
  the handlers send, strings and booleans always encode; a \<^verbatim>\<open>time.Time\<close> encodes when its
  year, read in UTC as the driver hands it over, lies between 0 and 9999, that is from
  \<^verbatim>\<open>0000-01-01T00:00:00Z\<close> up to, and not including, \<^verbatim>\<open>10000-01-01T00:00:00Z\<close>.

  A Go slice that was never appended to is \<^verbatim>\<open>nil\<close> and is written as \<^verbatim>\<open>null\<close>; any other
  slice is written as an array. A slice is held as an optional list, \<open>None\<close> for \<^verbatim>\<open>nil\<close>.
\<close>

record request =
  idParam :: string
  decoded :: "todo option"

datatype jvalue = JString string | JNull | JArray "todo list"

record response =
  status :: nat
  body :: "(string \<times> jvalue) list option"

definition StatusOK :: nat where
  "StatusOK = 200"

definition StatusBadRequest :: nat where
  "StatusBadRequest = 400"

definition StatusNotFound :: nat where
  "StatusNotFound = 404"

definition StatusInternalServerError :: nat where
  "StatusInternalServerError = 500"

definition jsonTime :: "time \<Rightarrow> bool" where
  "jsonTime t = (- 62167219200000 \<le> t \<and> t < 253402300800000)"

fun marshalsValue :: "jvalue \<Rightarrow> bool" where
  "marshalsValue (JString x) = True"
| "marshalsValue JNull = True"
| "marshalsValue (JArray vs) = list_all (\<lambda>v. jsonTime (CreatedAt v)) vs"

definition marshals :: "(string \<times> jvalue) list \<Rightarrow> bool" where
  "marshals m = list_all (\<lambda>kv. marshalsValue (snd kv)) m"

definition JSON :: "nat \<Rightarrow> (string \<times> jvalue) list \<Rightarrow> response" where
  "JSON st m = \<lparr>status = st, body = (if marshals m then Some m else None)\<rparr>"

definition append_go :: "'a list option \<Rightarrow> 'a \<Rightarrow> 'a list option" where
  "append_go xs x = Some ((case xs of None \<Rightarrow> [] | Some ys \<Rightarrow> ys) @ [x])"

definition jsonSlice :: "todo list option \<Rightarrow> jvalue" where
  "jsonSlice xs = (case xs of None \<Rightarrow> JNull | Some ys \<Rightarrow> JArray ys)"

text \<open>
  The creation times of a collection are in range when each of them encodes.
\<close>

definition timesInRange :: "store \<Rightarrow> bool" where
  "timesInRange s = list_all (\<lambda>d. jsonTime (CreateAt d)) (docs s)"

section \<open>The handlers\<close>

definition toView :: "todoModel \<Rightarrow> todo" where
  "toView t =
     \<lparr>todo.ID = Hex (todoModel.ID t), todo.Title = todoModel.Title t,
      todo.Completed = todoModel.Completed t, CreatedAt = CreateAt t\<rparr>"

text \<open>The loop of \<^verbatim>\<open>fetchTodos\<close> over the records read, with \<^verbatim>\<open>todoList\<close> as it stands.\<close>

fun rangeTodos :: "todoModel list \<Rightarrow> todo list option \<Rightarrow> todo list option" where
  "rangeTodos [] todoList = todoList"
| "rangeTodos (t # ts) todoList = rangeTodos ts (append_go todoList (toView t))"

definition fetchTodos :: "env \<Rightarrow> request \<Rightarrow> store \<Rightarrow> response \<times> store" where
  "fetchTodos e r s =
     (case Find e s of
        (Inl err, s') \<Rightarrow>
          (JSON StatusInternalServerError
             [(''message'', JString ''Failed to fetch todo''), (''error'', JString err)], s')
      | (Inr cur, s') \<Rightarrow>
          (case All e cur of
             Inl err \<Rightarrow>
               (JSON StatusInternalServerError
                  [(''message'', JString ''Failed to decode todos''), (''error'', JString err)], s')
           | Inr todos \<Rightarrow>
               (JSON StatusOK [(''data'', jsonSlice (rangeTodos todos None))], s')))"

definition createTodos :: "env \<Rightarrow> request \<Rightarrow> store \<Rightarrow> response \<times> store" where
  "createTodos e r s =
     (case decoded r of
        None \<Rightarrow> (JSON StatusBadRequest [(''message'', JString ''Invalid request payload'')], s)
      | Some t \<Rightarrow>
          if todo.Title t = []
          then (JSON StatusBadRequest [(''message'', JString ''Title field is required'')], s)
          else
            (let tm = \<lparr>todoModel.ID = newObjectID e, todoModel.Title = todo.Title t,
                       todoModel.Completed = False, CreateAt = now e\<rparr> in
             case InsertOne e (marshal tm) s of
               (Inl err, s') \<Rightarrow>
                 (JSON StatusInternalServerError
                    [(''message'', JString ''Failed to save todo''), (''error'', JString err)], s')
             | (Inr res, s') \<Rightarrow>
                 (JSON StatusOK
                    [(''message'', JString ''Todo successfully saved''),
                     (''Todo ID'', JString (Hex (todoModel.ID tm)))], s')))"

definition deleteTodo :: "env \<Rightarrow> request \<Rightarrow> store \<Rightarrow> response \<times> store" where
  "deleteTodo e r s =
     (let id = TrimSpace (idParam r) in
      if \<not> IsValidObjectID id
      then (JSON StatusBadRequest [(''message'', JString ''Invalid ID'')], s)
      else
        (let objectID = (case ObjectIDFromHex id of Inl invalid \<Rightarrow> NilObjectID | Inr oid \<Rightarrow> oid) in
         case DeleteOne e objectID s of
           (Inl err, s') \<Rightarrow>
             (JSON StatusInternalServerError
                [(''message'', JString ''Failed to delete TODO''), (''error'', JString err)], s')
         | (Inr deletedCount, s') \<Rightarrow>
             if deletedCount = 0
             then (JSON StatusNotFound [(''message'', JString ''Todo not found'')], s')
             else (JSON StatusOK [(''message'', JString ''Successfully deleted TODO'')], s')))"

definition updateTodo :: "env \<Rightarrow> request \<Rightarrow> store \<Rightarrow> response \<times> store" where
  "updateTodo e r s =
     (let id = TrimSpace (idParam r) in
      if \<not> IsValidObjectID id
      then (JSON StatusBadRequest [(''message'', JString ''Invalid ID'')], s)
      else
        (case decoded r of
           None \<Rightarrow> (JSON StatusBadRequest [(''message'', JString ''Invalid request payload'')], s)
         | Some t \<Rightarrow>
             if todo.Title t = []
             then (JSON StatusBadRequest [(''message'', JString ''Title field is required'')], s)
             else
               (let objectID =
                      (case ObjectIDFromHex id of Inl invalid \<Rightarrow> NilObjectID | Inr oid \<Rightarrow> oid);
                    update = [(''$set'', BDoc [(''title'', BString (todo.Title t)),
                                               (''completed'', BBool (todo.Completed t))])] in
                case UpdateOne e objectID update s of
                  (Inl err, s') \<Rightarrow>
                    (JSON StatusInternalServerError
                       [(''message'', JString ''Failed to update todo''),
                        (''error'', JString err)], s')
                | (Inr res, s') \<Rightarrow>
                    (JSON StatusOK [(''message'', JString ''Successfully updated TODO'')], s'))))"

section \<open>Sample values\<close>

text \<open>
  The values of the scenario of the specification: a todo titled \<^verbatim>\<open>Buy milk\<close>, the identifier
  \<^verbatim>\<open>507f1f77bcf86cd799439011\<close>, the same identifier with a no-break space and a blank before it and a line
  feed after it, an environment in which no store call fails and one in which it does,
  stores with and without the todo, and a store whose only record was created in the first
  millisecond of the year 10000.
\<close>

definition sampleID :: ObjectID where
  "sampleID = [0x50, 0x7f, 0x1f, 0x77, 0xbc, 0xf8, 0x6c, 0xd7, 0x99, 0x43, 0x90, 0x11]"

definition paddedID :: string where
  "paddedID = [CHR 0xC2, CHR 0xA0, CHR 0x20] @ ''507f1f77bcf86cd799439011'' @ [CHR 0x0A]"

definition sampleEnv :: env where
  "sampleEnv =
     \<lparr>storeErr = None, allErr = None, newObjectID = sampleID, now = 1000,
      driverID = [1, 1, 1, 1, 1, 1, 1, 1, 1, 1, 1, 1]\<rparr>"

definition failingEnv :: env where
  "failingEnv = sampleEnv\<lparr>storeErr := Some ''context deadline exceeded''\<rparr>"

definition sampleBody :: todo where
  "sampleBody =
     \<lparr>todo.ID = [], todo.Title = ''Buy milk'', todo.Completed = True, CreatedAt = 0\<rparr>"

definition emptyStore :: store where
  "emptyStore = \<lparr>docs = [], calls = []\<rparr>"

definition sampleRecord :: todoModel where
  "sampleRecord =
     \<lparr>todoModel.ID = sampleID, todoModel.Title = ''Buy milk'',
      todoModel.Completed = False, CreateAt = 1000\<rparr>"

definition otherRecord :: todoModel where
  "otherRecord =
     \<lparr>todoModel.ID = [7, 7, 7, 7, 7, 7, 7, 7, 7, 7, 7, 7], todoModel.Title = ''Walk the dog'',
      todoModel.Completed = True, CreateAt = 500\<rparr>"

definition otherStore :: store where
  "otherStore = \<lparr>docs = [otherRecord], calls = []\<rparr>"



definition sampleStore :: store where
  "sampleStore = \<lparr>docs = [otherRecord, sampleRecord], calls = []\<rparr>"

section \<open>Identifiers and their hexadecimal form\<close>

lemma hexdigits_read_back:
  "list_all (\<lambda>n. fromHexChar (hextable ! n) = Some (of_nat n)) [0..<16]"
  by (simp add: upt_conv_Cons fromHexChar_def hextable_def)

lemma fromHexChar_hextable:
  assumes "n < 16"
  shows "fromHexChar (hextable ! n) = Some (of_nat n)"
proof -
  from assms have "n \<in> set [0..<16]" by simp
  with hexdigits_read_back show ?thesis
    unfolding list_all_iff by blast
qed

lemma and_15_take_bit: "(b :: byte) AND 0x0f = take_bit 4 b"
proof -
  have "(15 :: byte) = mask 4" by (simp add: mask_eq_exp_minus_1)
  then show ?thesis by (simp add: take_bit_eq_mask)
qed

lemma hi_nibble_less: "unat (drop_bit 4 (b :: byte)) < 16"
proof -
  have "unat b < 2 ^ 8" using unsigned_less [of b] by simp
  then have "unat b div 16 < 16" by simp
  then show ?thesis by (simp add: drop_bit_eq_div unat_div)
qed

lemma lo_nibble_less: "unat ((b :: byte) AND 0x0f) < 16"
  by (simp add: and_15_take_bit take_bit_eq_mod unat_mod)

lemma nibbles_join: "push_bit 4 (drop_bit 4 b) OR (b AND 0x0f) = (b :: byte)"
  unfolding and_15_take_bit
  by (rule bit_eqI) (auto simp: bit_simps)

lemma hexDecode_encodeByte:
  "hexDecode (encodeByte b @ cs) =
     (case hexDecode cs of None \<Rightarrow> None | Some bs \<Rightarrow> Some (b # bs))"
  by (simp add: encodeByte_def fromHexChar_hextable hi_nibble_less lo_nibble_less nibbles_join
      split: option.splits)

lemma hexDecode_Hex: "hexDecode (Hex oid) = Some oid"
  by (induction oid) (simp_all add: Hex_def hexDecode_encodeByte)

lemma Hex_inject: "Hex a = Hex b \<Longrightarrow> a = b"
  by (metis hexDecode_Hex option.inject)

lemma length_Hex: "length (Hex oid) = 2 * length oid"
  by (induction oid) (simp_all add: Hex_def encodeByte_def)

lemma hexDecode_length: "hexDecode s = Some bs \<Longrightarrow> length s = 2 * length bs"
  by (induction s arbitrary: bs rule: hexDecode.induct) (auto split: option.splits)

lemma ObjectIDFromHex_length: "ObjectIDFromHex s = Inr oid \<Longrightarrow> length oid = 12"
  by (auto simp: ObjectIDFromHex_def split: if_splits option.splits dest: hexDecode_length)

lemma ObjectIDFromHex_Hex: "length oid = 12 \<Longrightarrow> ObjectIDFromHex (Hex oid) = Inr oid"
  by (simp add: ObjectIDFromHex_def length_Hex hexDecode_Hex)

section \<open>Trimming is idempotent\<close>

lemma spaceEncodings_nonempty: "e \<in> set spaceEncodings \<Longrightarrow> 0 < length e"
  by (auto simp: spaceEncodings_def)

lemma find_SomeD_mem: "find P xs = Some x \<Longrightarrow> x \<in> set xs \<and> P x"
  by (induction xs) (auto split: if_splits)

lemma leadingSpace_Some:
  assumes "leadingSpace s = Some e"
  shows "0 < length e \<and> take (length e) s = e"
proof -
  from assms have "e \<in> set spaceEncodings \<and> take (length e) s = e"
    unfolding leadingSpace_def by (rule find_SomeD_mem)
  then show ?thesis using spaceEncodings_nonempty by blast
qed

lemma trailingSpace_Some:
  assumes "trailingSpace s = Some e"
  shows "0 < length e \<and> length e \<le> length s \<and> drop (length s - length e) s = e"
proof -
  from assms have "e \<in> set spaceEncodings
      \<and> (length e \<le> length s \<and> drop (length s - length e) s = e)"
    unfolding trailingSpace_def by (rule find_SomeD_mem)
  then show ?thesis using spaceEncodings_nonempty by blast
qed

lemma TrimLeft_no_leading: "leadingSpace (TrimLeft s) = None"
proof (induction s rule: TrimLeft.induct)
  case (1 s)
  show ?case
  proof (cases "leadingSpace s")
    case None
    then show ?thesis by (simp add: TrimLeft.simps [of s])
  next
    case (Some e)
    with "1" show ?thesis by (simp add: TrimLeft.simps [of s])
  qed
qed

lemma TrimRight_no_trailing: "trailingSpace (TrimRight s) = None"
proof (induction s rule: TrimRight.induct)
  case (1 s)
  show ?case
  proof (cases "trailingSpace s")
    case None
    then show ?thesis by (simp add: TrimRight.simps [of s])
  next
    case (Some e)
    with "1" show ?thesis by (simp add: TrimRight.simps [of s])
  qed
qed

lemma TrimLeft_id: "leadingSpace s = None \<Longrightarrow> TrimLeft s = s"
  by (simp add: TrimLeft.simps [of s])

lemma TrimRight_id: "trailingSpace s = None \<Longrightarrow> TrimRight s = s"
  by (simp add: TrimRight.simps [of s])

lemma find_None_iff_all: "find P xs = None \<longleftrightarrow> (\<forall>x \<in> set xs. \<not> P x)"
  by (induction xs) auto

lemma leadingSpace_take:
  assumes "leadingSpace s = None"
  shows "leadingSpace (take n s) = None"
proof -
  have "take (length e) (take n s) \<noteq> e" if "e \<in> set spaceEncodings" for e
  proof
    assume eq: "take (length e) (take n s) = e"
    then have "length e = min (length e) (min n (length s))"
      by (metis length_take min.commute)
    then have "length e \<le> n" by arith
    then have "take (length e) (take n s) = take (length e) s"
      by (simp add: min_def)
    with eq have "take (length e) s = e" by simp
    with assms that show False
      by (auto simp: leadingSpace_def find_None_iff_all)
  qed
  then show ?thesis
    by (simp add: leadingSpace_def find_None_iff_all)
qed

lemma TrimRight_keeps_no_leading:
  "leadingSpace s = None \<Longrightarrow> leadingSpace (TrimRight s) = None"
proof (induction s rule: TrimRight.induct)
  case (1 s)
  show ?case
  proof (cases "trailingSpace s")
    case None
    with "1.prems" show ?thesis by (simp add: TrimRight.simps [of s])
  next
    case (Some e)
    from "1.prems" have "leadingSpace (take (length s - length e) s) = None"
      by (rule leadingSpace_take)
    with "1.IH" Some show ?thesis by (simp add: TrimRight.simps [of s])
  qed
qed

lemma TrimSpace_fixed: "TrimLeft (TrimSpace s) = TrimSpace s" "TrimRight (TrimSpace s) = TrimSpace s"
proof -
  have "leadingSpace (TrimSpace s) = None"
    unfolding TrimSpace_def by (rule TrimRight_keeps_no_leading) (rule TrimLeft_no_leading)
  then show "TrimLeft (TrimSpace s) = TrimSpace s" by (rule TrimLeft_id)
  have "trailingSpace (TrimSpace s) = None"
    unfolding TrimSpace_def by (rule TrimRight_no_trailing)
  then show "TrimRight (TrimSpace s) = TrimSpace s" by (rule TrimRight_id)
qed

lemma TrimSpace_idem: "TrimSpace (TrimSpace s) = TrimSpace s"
proof -
  have "TrimSpace (TrimSpace s) = TrimRight (TrimLeft (TrimSpace s))"
    by (simp add: TrimSpace_def)
  then show ?thesis by (simp add: TrimSpace_fixed)
qed

section \<open>A valid identifier has no white space to trim\<close>

lemma hexDecode_chars: "hexDecode s = Some bs \<Longrightarrow> c \<in> set s \<Longrightarrow> fromHexChar c \<noteq> None"
  by (induction s arbitrary: bs rule: hexDecode.induct) (auto split: option.splits)

lemma spaceEncodings_ends:
  "e \<in> set spaceEncodings \<Longrightarrow> e \<noteq> [] \<and> fromHexChar (hd e) = None \<and> fromHexChar (last e) = None"
  by (auto simp: spaceEncodings_def fromHexChar_def)

lemma hex_no_leadingSpace:
  assumes "s \<noteq> []" and "fromHexChar (hd s) \<noteq> None"
  shows "leadingSpace s = None"
proof -
  have "take (length e) s \<noteq> e" if "e \<in> set spaceEncodings" for e
  proof
    assume eq: "take (length e) s = e"
    from that have e: "e \<noteq> []" "fromHexChar (hd e) = None"
      using spaceEncodings_ends by blast+
    from e(1) have "hd (take (length e) s) = hd s"
      by (cases e; cases s) (use assms(1) in auto)
    with eq e(2) assms(2) show False by simp
  qed
  then show ?thesis by (simp add: leadingSpace_def find_None_iff_all)
qed

lemma hex_no_trailingSpace:
  assumes "s \<noteq> []" and "fromHexChar (last s) \<noteq> None"
  shows "trailingSpace s = None"
proof -
  have "\<not> (length e \<le> length s \<and> drop (length s - length e) s = e)"
    if "e \<in> set spaceEncodings" for e
  proof
    assume h: "length e \<le> length s \<and> drop (length s - length e) s = e"
    from that have e: "e \<noteq> []" "fromHexChar (last e) = None"
      using spaceEncodings_ends by blast+
    from e(1) h assms(1) have "length s - length e < length s"
      by (cases e) auto
    then have "last (drop (length s - length e) s) = last s"
      by (rule last_drop)
    with h e(2) assms(2) show False by simp
  qed
  then show ?thesis by (simp add: trailingSpace_def find_None_iff_all)
qed

lemma IsValidObjectID_iff:
  "IsValidObjectID s \<longleftrightarrow> (\<exists>oid. ObjectIDFromHex s = Inr oid)"
  by (auto simp: IsValidObjectID_def split: sum.splits)

lemma TrimSpace_valid:
  assumes "IsValidObjectID s"
  shows "TrimSpace s = s"
proof -
  from assms obtain oid where "length s = 24" and dec: "hexDecode s = Some oid"
    by (auto simp: IsValidObjectID_def ObjectIDFromHex_def split: if_splits option.splits)
  then have ne: "s \<noteq> []" by auto
  then have "hd s \<in> set s" and "last s \<in> set s" by simp_all
  with dec have "fromHexChar (hd s) \<noteq> None" and "fromHexChar (last s) \<noteq> None"
    using hexDecode_chars by blast+
  with ne have "leadingSpace s = None" and "trailingSpace s = None"
    using hex_no_leadingSpace hex_no_trailingSpace by blast+
  then show ?thesis by (simp add: TrimSpace_def TrimLeft_id TrimRight_id)
qed

section \<open>The store calls\<close>

lemma deleteFirst_absent: "oid \<notin> todoModel.ID ` set ds \<Longrightarrow> deleteFirst oid ds = ds"
  by (induction ds) auto

lemma length_deleteFirst:
  "oid \<in> todoModel.ID ` set ds \<Longrightarrow> Suc (length (deleteFirst oid ds)) = length ds"
  by (induction ds) auto

lemma set_deleteFirst: "set (deleteFirst oid ds) \<subseteq> set ds"
  by (induction ds) auto

lemma distinct_deleteFirst:
  "distinct (map todoModel.ID ds) \<Longrightarrow> distinct (map todoModel.ID (deleteFirst oid ds))"
proof (induction ds)
  case Nil
  then show ?case by simp
next
  case (Cons d ds)
  have "todoModel.ID ` set (deleteFirst oid ds) \<subseteq> todoModel.ID ` set ds"
    using set_deleteFirst by blast
  with Cons show ?case by auto
qed

lemma deleteFirst_removes:
  "distinct (map todoModel.ID ds) \<Longrightarrow> oid \<notin> todoModel.ID ` set (deleteFirst oid ds)"
proof (induction ds)
  case Nil
  then show ?case by simp
next
  case (Cons d ds)
  then show ?case by auto
qed

lemma setField_frame:
  "todoModel.ID (setField f d) = todoModel.ID d \<and> CreateAt (setField f d) = CreateAt d"
  by (cases f; cases "snd f") auto

lemma fold_setField_frame:
  "todoModel.ID (fold setField fs d) = todoModel.ID d
     \<and> CreateAt (fold setField fs d) = CreateAt d"
  by (induction fs arbitrary: d) (simp_all add: setField_frame)

lemma applyOperator_frame:
  "todoModel.ID (applyOperator f d) = todoModel.ID d
     \<and> CreateAt (applyOperator f d) = CreateAt d"
  by (cases f; cases "snd f") (auto simp: fold_setField_frame)

lemma fold_applyOperator_frame:
  "todoModel.ID (fold applyOperator upd d) = todoModel.ID d
     \<and> CreateAt (fold applyOperator upd d) = CreateAt d"
  by (induction upd arbitrary: d) (simp_all add: applyOperator_frame)

lemma length_updateFirst: "length (updateFirst oid upd ds) = length ds"
  by (induction ds) auto

lemma map_ID_updateFirst:
  "map todoModel.ID (updateFirst oid upd ds) = map todoModel.ID ds"
  by (induction ds) (simp_all add: fold_applyOperator_frame)

lemma map_CreateAt_updateFirst: "map CreateAt (updateFirst oid upd ds) = map CreateAt ds"
  by (induction ds) (simp_all add: fold_applyOperator_frame)

lemma updateFirst_others:
  "i < length ds \<Longrightarrow> todoModel.ID (ds ! i) \<noteq> oid \<Longrightarrow> updateFirst oid upd ds ! i = ds ! i"
proof (induction ds arbitrary: i)
  case Nil
  then show ?case by simp
next
  case (Cons d ds)
  then show ?case by (cases i) auto
qed

lemma updateFirst_absent: "oid \<notin> todoModel.ID ` set ds \<Longrightarrow> updateFirst oid upd ds = ds"
  by (induction ds) auto

section \<open>The handlers, case by case\<close>

lemma status_JSON: "status (JSON st m) = st"
  by (simp add: JSON_def)

lemma views_in_range:
  "list_all (\<lambda>v. jsonTime (CreatedAt v)) (map toView ds)
     = list_all (\<lambda>d. jsonTime (CreateAt d)) ds"
  by (induction ds) (simp_all add: toView_def)

lemma JSON_data:
  "JSON st [(''data'', if docs s = [] then JNull else JArray (map toView (docs s)))] =
     \<lparr>status = st,
      body = (if timesInRange s
              then Some [(''data'', if docs s = [] then JNull else JArray (map toView (docs s)))]
              else None)\<rparr>"
  by (simp add: JSON_def marshals_def views_in_range timesInRange_def)

lemma deleteTodo_invalid:
  assumes "\<not> IsValidObjectID (TrimSpace (idParam r))"
  shows "deleteTodo e r s = (JSON 400 [(''message'', JString ''Invalid ID'')], s)"
  using assms by (simp add: deleteTodo_def StatusBadRequest_def)

lemma deleteTodo_failed:
  assumes "ObjectIDFromHex (TrimSpace (idParam r)) = Inr oid" and "storeErr e = Some err"
  shows "deleteTodo e r s =
     (JSON 500 [(''message'', JString ''Failed to delete TODO''), (''error'', JString err)],
      logCall (CallDeleteOne oid) s)"
  using assms
  by (simp add: deleteTodo_def IsValidObjectID_def DeleteOne_def StatusInternalServerError_def)

lemma deleteTodo_done:
  assumes "ObjectIDFromHex (TrimSpace (idParam r)) = Inr oid" and "storeErr e = None"
  shows "deleteTodo e r s =
     (if oid \<in> todoModel.ID ` set (docs s)
      then JSON 200 [(''message'', JString ''Successfully deleted TODO'')]
      else JSON 404 [(''message'', JString ''Todo not found'')],
      logCall (CallDeleteOne oid) (s\<lparr>docs := deleteFirst oid (docs s)\<rparr>))"
proof -
  have "length (docs s) - length (deleteFirst oid (docs s)) = 0
      \<longleftrightarrow> oid \<notin> todoModel.ID ` set (docs s)"
  proof (cases "oid \<in> todoModel.ID ` set (docs s)")
    case True
    then have "Suc (length (deleteFirst oid (docs s))) = length (docs s)"
      by (rule length_deleteFirst)
    with True show ?thesis by arith
  next
    case False
    then show ?thesis by (simp add: deleteFirst_absent)
  qed
  with assms show ?thesis
    by (simp add: deleteTodo_def IsValidObjectID_def DeleteOne_def Let_def
        StatusOK_def StatusNotFound_def)
qed

lemma updateTodo_invalid:
  assumes "\<not> IsValidObjectID (TrimSpace (idParam r))"
  shows "updateTodo e r s = (JSON 400 [(''message'', JString ''Invalid ID'')], s)"
  using assms by (simp add: updateTodo_def StatusBadRequest_def)

lemma updateTodo_accepted:
  assumes "ObjectIDFromHex (TrimSpace (idParam r)) = Inr oid"
    and "decoded r = Some t" and "todo.Title t \<noteq> []"
  shows "updateTodo e r s =
     (case storeErr e of
        Some err \<Rightarrow>
          (JSON 500 [(''message'', JString ''Failed to update todo''), (''error'', JString err)],
           logCall (CallUpdateOne oid
             [(''$set'', BDoc [(''title'', BString (todo.Title t)),
                               (''completed'', BBool (todo.Completed t))])]) s)
      | None \<Rightarrow>
          (JSON 200 [(''message'', JString ''Successfully updated TODO'')],
           logCall (CallUpdateOne oid
             [(''$set'', BDoc [(''title'', BString (todo.Title t)),
                               (''completed'', BBool (todo.Completed t))])])
             (s\<lparr>docs := updateFirst oid
                [(''$set'', BDoc [(''title'', BString (todo.Title t)),
                                  (''completed'', BBool (todo.Completed t))])]
                (docs s)\<rparr>)))"
  using assms
  by (simp add: updateTodo_def IsValidObjectID_def UpdateOne_def Let_def
      StatusOK_def StatusInternalServerError_def split: option.splits)

lemma updateTodo_status_cases:
  "status (fst (updateTodo e r s)) = 200 \<Longrightarrow>
     \<exists>oid t. ObjectIDFromHex (TrimSpace (idParam r)) = Inr oid \<and> decoded r = Some t
       \<and> todo.Title t \<noteq> [] \<and> storeErr e = None"
  by (auto simp: updateTodo_def IsValidObjectID_def UpdateOne_def Let_def JSON_def marshals_def
      StatusOK_def StatusBadRequest_def StatusInternalServerError_def
      split: option.splits sum.splits if_splits)

lemma createTodos_accepted:
  assumes "decoded r = Some t" and "todo.Title t \<noteq> []"
  shows "createTodos e r s =
     (let d = marshal \<lparr>todoModel.ID = newObjectID e, todoModel.Title = todo.Title t,
                       todoModel.Completed = False, CreateAt = now e\<rparr> in
      case InsertOne e d s of
        (Inl err, s') \<Rightarrow>
          (JSON 500 [(''message'', JString ''Failed to save todo''), (''error'', JString err)], s')
      | (Inr res, s') \<Rightarrow>
          (JSON 200 [(''message'', JString ''Todo successfully saved''),
                     (''Todo ID'', JString (Hex (newObjectID e)))], s'))"
  using assms
  by (simp add: createTodos_def Let_def StatusOK_def StatusInternalServerError_def
      split: prod.splits sum.splits)

lemma rangeTodos_eq:
  "rangeTodos todos acc =
     (if todos = [] then acc
      else Some ((case acc of None \<Rightarrow> [] | Some ys \<Rightarrow> ys) @ map toView todos))"
  by (induction todos arbitrary: acc) (auto simp: append_go_def split: option.splits)

lemma fetchTodos_eq:
  "fetchTodos e r s =
     (case storeErr e of
        Some err \<Rightarrow>
          (JSON 500 [(''message'', JString ''Failed to fetch todo''), (''error'', JString err)],
           logCall CallFind s)
      | None \<Rightarrow>
          (case allErr e of
             Some err \<Rightarrow>
               (JSON 500 [(''message'', JString ''Failed to decode todos''),
                          (''error'', JString err)], logCall CallFind s)
           | None \<Rightarrow>
               (JSON 200 [(''data'', if docs s = [] then JNull else JArray (map toView (docs s)))],
                logCall CallFind s)))"
  by (simp add: fetchTodos_def Find_def All_def rangeTodos_eq jsonSlice_def
      StatusOK_def StatusInternalServerError_def split: option.splits)

section \<open>The sample identifier, plain and padded\<close>

lemma sample_ObjectIDFromHex: "ObjectIDFromHex ''507f1f77bcf86cd799439011'' = Inr sampleID"
  by (simp add: ObjectIDFromHex_def fromHexChar_def sampleID_def)

lemma sample_valid: "IsValidObjectID ''507f1f77bcf86cd799439011''"
  by (simp add: IsValidObjectID_def sample_ObjectIDFromHex)

lemma sample_TrimSpace: "TrimSpace ''507f1f77bcf86cd799439011'' = ''507f1f77bcf86cd799439011''"
  using sample_valid by (rule TrimSpace_valid)

lemma leadingSpace_blank: "leadingSpace (CHR '' '' # cs) = Some '' ''"
  by (simp add: leadingSpace_def spaceEncodings_def)

lemma TrimLeft_blank: "TrimLeft (CHR '' '' # cs) = TrimLeft cs"
  by (simp add: TrimLeft.simps [of "CHR '' '' # cs"] leadingSpace_blank)

lemma trailingSpace_blank: "trailingSpace (cs @ '' '') = Some '' ''"
  by (simp add: trailingSpace_def spaceEncodings_def)

lemma TrimRight_blank: "TrimRight (cs @ '' '') = TrimRight cs"
  by (simp add: TrimRight.simps [of "cs @ '' ''"] trailingSpace_blank)

lemma padded_TrimSpace:
  "TrimSpace '' 507f1f77bcf86cd799439011 '' = ''507f1f77bcf86cd799439011''"
  "TrimSpace ''507f1f77bcf86cd799439011 '' = ''507f1f77bcf86cd799439011''"
proof -
  have l: "TrimLeft ''507f1f77bcf86cd799439011 '' = ''507f1f77bcf86cd799439011 ''"
    by (rule TrimLeft_id) (simp add: hex_no_leadingSpace fromHexChar_def)
  have r: "TrimRight ''507f1f77bcf86cd799439011'' = ''507f1f77bcf86cd799439011''"
    by (rule TrimRight_id) (simp add: hex_no_trailingSpace fromHexChar_def)
  have "TrimRight (''507f1f77bcf86cd799439011'' @ '' '') = ''507f1f77bcf86cd799439011''"
    unfolding TrimRight_blank by (rule r)
  then have rr: "TrimRight ''507f1f77bcf86cd799439011 '' = ''507f1f77bcf86cd799439011''"
    by simp
  show "TrimSpace ''507f1f77bcf86cd799439011 '' = ''507f1f77bcf86cd799439011''"
    by (simp add: TrimSpace_def l rr)
  show "TrimSpace '' 507f1f77bcf86cd799439011 '' = ''507f1f77bcf86cd799439011''"
    by (simp add: TrimSpace_def TrimLeft_blank l rr)
qed

lemma padded_invalid:
  "\<not> IsValidObjectID '' 507f1f77bcf86cd799439011 ''"
  "\<not> IsValidObjectID ''507f1f77bcf86cd799439011 ''"
  by (simp_all add: IsValidObjectID_def ObjectIDFromHex_def)

lemma not_an_id_invalid: "\<not> IsValidObjectID (TrimSpace ''not-an-id'')"
proof -
  have "leadingSpace ''not-an-id'' = None" and "trailingSpace ''not-an-id'' = None"
    by (simp_all add: leadingSpace_def trailingSpace_def spaceEncodings_def)
  then have "TrimSpace ''not-an-id'' = ''not-an-id''"
    by (simp add: TrimSpace_def TrimLeft_id TrimRight_id)
  then show ?thesis
    by (simp add: IsValidObjectID_def ObjectIDFromHex_def)
qed

section \<open>White space around a valid identifier\<close>

text \<open>
  Every white space encoding starts with a byte that is not a continuation byte of UTF-8,
  goes on with continuation bytes only, and has the length its first byte announces. So no
  encoding is the start or the end of another one, and trimming a string that consists of
  white space followed by something else first removes that white space.
\<close>

lemma spaceEncodings_shape:
  "list_all
     (\<lambda>e. e \<noteq> [] \<and> length e = runeLen (hd e) \<and> \<not> isCont (hd e) \<and> list_all isCont (tl e))
     spaceEncodings"
  by (simp add: spaceEncodings_def runeLen_def isCont_def)

lemma spaceEncodings_shapeD:
  assumes "e \<in> set spaceEncodings"
  shows "e \<noteq> []" and "length e = runeLen (hd e)" and "\<not> isCont (hd e)"
    and "\<And>c. c \<in> set (tl e) \<Longrightarrow> isCont c"
  using assms spaceEncodings_shape unfolding list_all_iff by blast+

lemma take_length_prefix: "take (length e) s = e \<longleftrightarrow> prefix e s"
  by (metis append_eq_conv_conj prefix_def)

lemma drop_length_suffix:
  "length e \<le> length s \<and> drop (length s - length e) s = e \<longleftrightarrow> suffix e s"
proof
  assume h: "length e \<le> length s \<and> drop (length s - length e) s = e"
  then have "s = take (length s - length e) s @ e"
    by (metis append_take_drop_id)
  then show "suffix e s" by (metis suffixI)
next
  assume "suffix e s"
  then obtain zs where "s = zs @ e" by (auto simp: suffix_def)
  then show "length e \<le> length s \<and> drop (length s - length e) s = e" by simp
qed

lemma spaceEncodings_prefix_free:
  assumes "e \<in> set spaceEncodings" and "e' \<in> set spaceEncodings" and "prefix e e'"
  shows "e = e'"
proof -
  from assms(1) have ne: "e \<noteq> []" by (rule spaceEncodings_shapeD)
  with assms(3) have "hd e = hd e'"
    by (cases e; cases e') auto
  with assms(1,2) have "length e = length e'"
    by (simp add: spaceEncodings_shapeD(2))
  moreover from assms(3) obtain zs where "e' = e @ zs" by (auto simp: prefix_def)
  ultimately show ?thesis by simp
qed

lemma spaceEncodings_suffix_free:
  assumes "e \<in> set spaceEncodings" and "e' \<in> set spaceEncodings" and "suffix e e'"
  shows "e = e'"
proof (rule ccontr)
  assume neq: "e \<noteq> e'"
  from assms(3) obtain zs where zs: "e' = zs @ e" by (auto simp: suffix_def)
  with neq have "zs \<noteq> []" by auto
  moreover from assms(1) have "e \<noteq> []" by (rule spaceEncodings_shapeD)
  ultimately have "hd e \<in> set (tl e')"
    using zs by (cases zs; cases e) auto
  with assms(2) have "isCont (hd e)" by (rule spaceEncodings_shapeD(4))
  with assms(1) show False by (simp add: spaceEncodings_shapeD(3))
qed

lemma find_Some_cong:
  assumes "find P xs = Some x" and "\<And>y. y \<in> set xs \<Longrightarrow> Q y = P y"
  shows "find Q xs = Some x"
  using assms by (induction xs) (auto split: if_splits)

lemma leadingSpace_append:
  assumes "leadingSpace l = Some e"
  shows "leadingSpace (l @ x) = Some e"
proof -
  from assms have e: "e \<in> set spaceEncodings" "prefix e l"
    unfolding leadingSpace_def take_length_prefix by (auto dest: find_SomeD_mem)
  have "prefix y (l @ x) = prefix y l" if "y \<in> set spaceEncodings" for y
  proof
    assume "prefix y l"
    then show "prefix y (l @ x)" by (rule prefix_prefix)
  next
    assume y: "prefix y (l @ x)"
    from e(2) have "prefix e (l @ x)" by (rule prefix_prefix)
    with y have "prefix y e \<or> prefix e y" by (rule prefix_same_cases)
    with that e(1) have "y = e"
      using spaceEncodings_prefix_free by blast
    with e(2) show "prefix y l" by simp
  qed
  with assms show ?thesis
    unfolding leadingSpace_def take_length_prefix by (rule find_Some_cong)
qed

lemma trailingSpace_append:
  assumes "trailingSpace t = Some e"
  shows "trailingSpace (x @ t) = Some e"
proof -
  from assms have e: "e \<in> set spaceEncodings" "suffix e t"
    unfolding trailingSpace_def drop_length_suffix by (auto dest: find_SomeD_mem)
  have "suffix y (x @ t) = suffix y t" if "y \<in> set spaceEncodings" for y
  proof
    assume "suffix y t"
    then show "suffix y (x @ t)" by (rule suffix_appendI)
  next
    assume y: "suffix y (x @ t)"
    from e(2) have "suffix e (x @ t)" by (rule suffix_appendI)
    with y have "suffix y e \<or> suffix e y" by (rule suffix_same_cases)
    with that e(1) have "y = e"
      using spaceEncodings_suffix_free by blast
    with e(2) show "suffix y t" by simp
  qed
  with assms show ?thesis
    unfolding trailingSpace_def drop_length_suffix by (rule find_Some_cong)
qed

lemma TrimLeft_append: "TrimLeft l = [] \<Longrightarrow> TrimLeft (l @ x) = TrimLeft x"
proof (induction l rule: TrimLeft.induct)
  case (1 l)
  show ?case
  proof (cases "leadingSpace l")
    case None
    with "1.prems" have "l = []" by (simp add: TrimLeft.simps [of l])
    then show ?thesis by simp
  next
    case (Some e)
    from leadingSpace_Some [OF Some] have "prefix e l"
      by (simp add: take_length_prefix)
    then have le: "length e \<le> length l"
      by (rule prefix_length_le)
    from Some "1.prems" have "TrimLeft (drop (length e) l) = []"
      by (simp add: TrimLeft.simps [of l])
    with "1.IH" Some have "TrimLeft (drop (length e) l @ x) = TrimLeft x" by simp
    moreover have "TrimLeft (l @ x) = TrimLeft (drop (length e) (l @ x))"
      by (simp add: TrimLeft.simps [of "l @ x"] leadingSpace_append [OF Some])
    ultimately show ?thesis using le by simp
  qed
qed

lemma TrimRight_append: "TrimRight t = [] \<Longrightarrow> TrimRight (x @ t) = TrimRight x"
proof (induction t rule: TrimRight.induct)
  case (1 t)
  show ?case
  proof (cases "trailingSpace t")
    case None
    with "1.prems" have "t = []" by (simp add: TrimRight.simps [of t])
    then show ?thesis by simp
  next
    case (Some e)
    then have le: "length e \<le> length t"
      using trailingSpace_Some [OF Some] by simp
    from Some "1.prems" have "TrimRight (take (length t - length e) t) = []"
      by (simp add: TrimRight.simps [of t])
    with "1.IH" Some
    have "TrimRight (x @ take (length t - length e) t) = TrimRight x" by simp
    moreover have "TrimRight (x @ t)
        = TrimRight (take (length (x @ t) - length e) (x @ t))"
      by (simp add: TrimRight.simps [of "x @ t"] trailingSpace_append [OF Some])
    moreover from le have "take (length (x @ t) - length e) (x @ t)
        = x @ take (length t - length e) t"
      by simp
    ultimately show ?thesis by simp
  qed
qed

lemma TrimSpace_padded:
  assumes "IsValidObjectID h" and "TrimLeft l = []" and "TrimRight t = []"
  shows "TrimSpace (l @ h @ t) = h"
proof -
  from assms(1) obtain oid where "length h = 24" and dec: "hexDecode h = Some oid"
    by (auto simp: IsValidObjectID_def ObjectIDFromHex_def split: if_splits option.splits)
  then have ne: "h \<noteq> []" by auto
  then have "hd h \<in> set h" and "last h \<in> set h" by simp_all
  with dec have hex: "fromHexChar (hd h) \<noteq> None" "fromHexChar (last h) \<noteq> None"
    using hexDecode_chars by blast+
  from ne hex(1) have "leadingSpace (h @ t) = None"
    by (intro hex_no_leadingSpace) simp_all
  then have "TrimLeft (h @ t) = h @ t" by (rule TrimLeft_id)
  with assms(2) have left: "TrimLeft (l @ h @ t) = h @ t"
    by (simp add: TrimLeft_append)
  from ne hex(2) have "trailingSpace h = None" by (rule hex_no_trailingSpace)
  then have "TrimRight h = h" by (rule TrimRight_id)
  with assms(3) have "TrimRight (h @ t) = h"
    by (simp add: TrimRight_append)
  with left show ?thesis by (simp add: TrimSpace_def)
qed

section \<open>The handlers keep identifiers unique\<close>

lemma createTodos_uniqueIDs: "uniqueIDs s \<Longrightarrow> uniqueIDs (snd (createTodos e r s))"
  by (auto simp: createTodos_def InsertOne_def logCall_def uniqueIDs_def Let_def
      split: option.splits)

lemma updateTodo_uniqueIDs: "uniqueIDs s \<Longrightarrow> uniqueIDs (snd (updateTodo e r s))"
  by (auto simp: updateTodo_def UpdateOne_def logCall_def uniqueIDs_def Let_def
      map_ID_updateFirst split: option.splits)

lemma deleteTodo_uniqueIDs: "uniqueIDs s \<Longrightarrow> uniqueIDs (snd (deleteTodo e r s))"
  by (auto simp: deleteTodo_def DeleteOne_def logCall_def uniqueIDs_def Let_def
      distinct_deleteFirst split: option.splits)

section \<open>Create\<close>

text \<open>
  C5. A create request whose body fails to decode, or whose decoded title is the empty
  string, is answered with 400 and leaves the store as it was: no document is inserted
  and no store call is made.
\<close>

theorem createTodos_bad_request:
  assumes "decoded r = None \<or> (\<exists>t. decoded r = Some t \<and> todo.Title t = [])"
  shows "status (fst (createTodos e r s)) = 400 \<and> snd (createTodos e r s) = s"
  using assms by (auto simp: createTodos_def JSON_def marshals_def StatusBadRequest_def)

theorem createTodos_bad_request_witness:
  "decoded \<lparr>idParam = [], decoded = Some (sampleBody\<lparr>todo.Title := []\<rparr>)\<rparr>
     = Some (sampleBody\<lparr>todo.Title := []\<rparr>)
   \<and> todo.Title (sampleBody\<lparr>todo.Title := []\<rparr>) = []
   \<and> status (fst (createTodos sampleEnv
        \<lparr>idParam = [], decoded = Some (sampleBody\<lparr>todo.Title := []\<rparr>)\<rparr> sampleStore)) = 400
   \<and> snd (createTodos sampleEnv
        \<lparr>idParam = [], decoded = Some (sampleBody\<lparr>todo.Title := []\<rparr>)\<rparr> sampleStore)
     = sampleStore
   \<and> status (fst (createTodos sampleEnv \<lparr>idParam = [], decoded = None\<rparr> sampleStore)) = 400
   \<and> snd (createTodos sampleEnv \<lparr>idParam = [], decoded = None\<rparr> sampleStore) = sampleStore"
  using createTodos_bad_request
      [of "\<lparr>idParam = [], decoded = Some (sampleBody\<lparr>todo.Title := []\<rparr>)\<rparr>" sampleEnv sampleStore]
    createTodos_bad_request [of "\<lparr>idParam = [], decoded = None\<rparr>" sampleEnv sampleStore]
  by simp

section \<open>List\<close>

text \<open>
  C9. When the collection holds no record and the store answers, List returns 200 and the
  field \<^verbatim>\<open>data\<close> of the body is \<^verbatim>\<open>null\<close>, the form of the nil slice, not an empty array.
\<close>

theorem fetchTodos_empty_null:
  assumes "docs s = []" and "storeErr e = None" and "allErr e = None"
  shows "fst (fetchTodos e r s) = \<lparr>status = 200, body = Some [(''data'', JNull)]\<rparr>"
  using assms by (simp add: fetchTodos_eq JSON_def marshals_def)

theorem fetchTodos_empty_null_witness:
  "docs emptyStore = [] \<and> storeErr sampleEnv = None \<and> allErr sampleEnv = None
   \<and> fst (fetchTodos sampleEnv \<lparr>idParam = [], decoded = None\<rparr> emptyStore)
     = \<lparr>status = 200, body = Some [(''data'', JNull)]\<rparr>"
  using fetchTodos_empty_null [of emptyStore sampleEnv "\<lparr>idParam = [], decoded = None\<rparr>"]
  by (simp add: emptyStore_def sampleEnv_def)

section \<open>Update\<close>

text \<open>
  C2. An update request with a valid identifier in the path, a body that decodes and a
  title that is not empty is answered from the outcome of the store call alone: 200 when
  the call does not fail (500 when it does), whatever documents the collection holds. In
  particular, when no record has the identifier, Update still answers 200 and leaves the
  documents as they were, where Delete with the same identifier answers 404.
\<close>

theorem updateTodo_ignores_existence:
  assumes "IsValidObjectID (idParam r)" and "decoded r = Some t" and "todo.Title t \<noteq> []"
  shows "status (fst (updateTodo e r s)) = (if storeErr e = None then 200 else 500)
    \<and> (\<forall>oid. ObjectIDFromHex (idParam r) = Inr oid \<longrightarrow> storeErr e = None
          \<longrightarrow> oid \<notin> todoModel.ID ` set (docs s)
          \<longrightarrow> status (fst (updateTodo e r s)) = 200
              \<and> docs (snd (updateTodo e r s)) = docs s
              \<and> status (fst (deleteTodo e r s)) = 404)"
proof -
  from assms(1) have trim: "TrimSpace (idParam r) = idParam r"
    by (rule TrimSpace_valid)
  from assms(1) obtain oid where oid: "ObjectIDFromHex (idParam r) = Inr oid"
    by (auto simp: IsValidObjectID_iff)
  with trim have oid': "ObjectIDFromHex (TrimSpace (idParam r)) = Inr oid" by simp
  have upd: "status (fst (updateTodo e r s)) = (if storeErr e = None then 200 else 500)"
    by (cases "storeErr e")
      (simp_all add: updateTodo_accepted [OF oid' assms(2,3)] JSON_def marshals_def)
  have "docs (snd (updateTodo e r s)) = docs s \<and> status (fst (deleteTodo e r s)) = 404"
    if "storeErr e = None" and "oid \<notin> todoModel.ID ` set (docs s)"
    using that
    by (simp add: updateTodo_accepted [OF oid' assms(2,3)] deleteTodo_done [OF oid']
        updateFirst_absent logCall_def JSON_def marshals_def)
  with upd oid show ?thesis by auto
qed

theorem updateTodo_ignores_existence_witness:
  "IsValidObjectID ''507f1f77bcf86cd799439011''
   \<and> ObjectIDFromHex ''507f1f77bcf86cd799439011'' = Inr sampleID
   \<and> sampleID \<notin> todoModel.ID ` set (docs emptyStore)
   \<and> status (fst (updateTodo sampleEnv
        \<lparr>idParam = ''507f1f77bcf86cd799439011'', decoded = Some sampleBody\<rparr> emptyStore)) = 200
   \<and> docs (snd (updateTodo sampleEnv
        \<lparr>idParam = ''507f1f77bcf86cd799439011'', decoded = Some sampleBody\<rparr> emptyStore)) = []
   \<and> status (fst (deleteTodo sampleEnv
        \<lparr>idParam = ''507f1f77bcf86cd799439011'', decoded = Some sampleBody\<rparr> emptyStore)) = 404
   \<and> status (fst (updateTodo failingEnv
        \<lparr>idParam = ''507f1f77bcf86cd799439011'', decoded = Some sampleBody\<rparr> emptyStore)) = 500"
proof -
  have v: "ObjectIDFromHex ''507f1f77bcf86cd799439011'' = Inr sampleID"
    by (simp add: ObjectIDFromHex_def fromHexChar_def sampleID_def)
  then have w: "IsValidObjectID ''507f1f77bcf86cd799439011''"
    by (simp add: IsValidObjectID_def)
  show ?thesis
    using v w
      updateTodo_ignores_existence
        [of "\<lparr>idParam = ''507f1f77bcf86cd799439011'', decoded = Some sampleBody\<rparr>"
          sampleBody sampleEnv emptyStore]
      updateTodo_ignores_existence
        [of "\<lparr>idParam = ''507f1f77bcf86cd799439011'', decoded = Some sampleBody\<rparr>"
          sampleBody failingEnv emptyStore]
    by (simp add: sampleBody_def sampleEnv_def failingEnv_def emptyStore_def)
qed

text \<open>
  C6. A successful update changes at most the title and the completed flag of the record it
  matches: the identifiers and the creation times of all records are what they were, in
  the same order, and every record with another identifier is unchanged.
\<close>

theorem updateTodo_frame:
  assumes "status (fst (updateTodo e r s)) = 200"
  shows "\<exists>oid. ObjectIDFromHex (TrimSpace (idParam r)) = Inr oid
    \<and> map todoModel.ID (docs (snd (updateTodo e r s))) = map todoModel.ID (docs s)
    \<and> map CreateAt (docs (snd (updateTodo e r s))) = map CreateAt (docs s)
    \<and> (\<forall>i < length (docs s). todoModel.ID (docs s ! i) \<noteq> oid
          \<longrightarrow> docs (snd (updateTodo e r s)) ! i = docs s ! i)"
proof -
  from assms obtain oid t where oid: "ObjectIDFromHex (TrimSpace (idParam r)) = Inr oid"
    and t: "decoded r = Some t" "todo.Title t \<noteq> []" and ok: "storeErr e = None"
    using updateTodo_status_cases by blast
  have "docs (snd (updateTodo e r s)) =
      updateFirst oid [(''$set'', BDoc [(''title'', BString (todo.Title t)),
                                        (''completed'', BBool (todo.Completed t))])] (docs s)"
    by (simp add: updateTodo_accepted [OF oid t] ok logCall_def)
  with oid show ?thesis
    by (simp add: map_ID_updateFirst map_CreateAt_updateFirst updateFirst_others)
qed

theorem updateTodo_frame_witness:
  "status (fst (updateTodo sampleEnv
      \<lparr>idParam = ''507f1f77bcf86cd799439011'', decoded = Some sampleBody\<rparr> sampleStore)) = 200
   \<and> docs (snd (updateTodo sampleEnv
      \<lparr>idParam = ''507f1f77bcf86cd799439011'', decoded = Some sampleBody\<rparr> sampleStore))
     = [otherRecord, sampleRecord\<lparr>todoModel.Completed := True\<rparr>]
   \<and> (\<exists>oid. ObjectIDFromHex (TrimSpace ''507f1f77bcf86cd799439011'') = Inr oid
        \<and> map todoModel.ID (docs (snd (updateTodo sampleEnv
              \<lparr>idParam = ''507f1f77bcf86cd799439011'', decoded = Some sampleBody\<rparr>
              sampleStore))) = map todoModel.ID (docs sampleStore))"
proof -
  have v: "IsValidObjectID ''507f1f77bcf86cd799439011''"
      "ObjectIDFromHex ''507f1f77bcf86cd799439011'' = Inr sampleID"
    by (simp_all add: IsValidObjectID_def ObjectIDFromHex_def fromHexChar_def sampleID_def)
  from v(1) have tr: "TrimSpace ''507f1f77bcf86cd799439011'' = ''507f1f77bcf86cd799439011''"
    by (rule TrimSpace_valid)
  have run: "updateTodo sampleEnv
      \<lparr>idParam = ''507f1f77bcf86cd799439011'', decoded = Some sampleBody\<rparr> sampleStore
    = (JSON 200 [(''message'', JString ''Successfully updated TODO'')],
       \<lparr>docs = [otherRecord, sampleRecord\<lparr>todoModel.Completed := True\<rparr>],
        calls = [CallUpdateOne sampleID
          [(''$set'', BDoc [(''title'', BString ''Buy milk''),
                            (''completed'', BBool True)])]]\<rparr>)"
    by (simp add: updateTodo_def tr v UpdateOne_def logCall_def Let_def StatusOK_def
        sampleBody_def sampleEnv_def sampleStore_def sampleRecord_def otherRecord_def
        sampleID_def)
  show ?thesis
    using updateTodo_frame
      [of sampleEnv "\<lparr>idParam = ''507f1f77bcf86cd799439011'', decoded = Some sampleBody\<rparr>"
        sampleStore]
    by (auto simp: run JSON_def marshals_def)
qed

section \<open>Delete\<close>

text \<open>
  C4, as amended. The status code of Delete is 400 when the identifier of the path, once
  the white space around it is trimmed, is not a valid identifier; otherwise 500 when the
  store call fails; otherwise 404 when no record was removed; otherwise 200. And in a
  collection with unique identifiers, after a delete that answered 200 a second delete of
  the same identifier, the store answering, returns 404.
\<close>

theorem deleteTodo_status_code:
  "status (fst (deleteTodo e r s)) =
     (if \<not> IsValidObjectID (TrimSpace (idParam r)) then 400
      else if storeErr e \<noteq> None then 500
      else if length (docs s) - length (docs (snd (deleteTodo e r s))) = 0 then 404
      else 200)
   \<and> (uniqueIDs s \<longrightarrow> status (fst (deleteTodo e r s)) = 200 \<longrightarrow> storeErr e' = None
        \<longrightarrow> status (fst (deleteTodo e' r (snd (deleteTodo e r s)))) = 404)"
proof (cases "IsValidObjectID (TrimSpace (idParam r))")
  case False
  then show ?thesis by (simp add: deleteTodo_invalid JSON_def marshals_def)
next
  case True
  then obtain oid where oid: "ObjectIDFromHex (TrimSpace (idParam r)) = Inr oid"
    by (auto simp: IsValidObjectID_iff)
  show ?thesis
  proof (cases "storeErr e")
    case (Some err)
    with True oid show ?thesis by (simp add: deleteTodo_failed JSON_def marshals_def)
  next
    case None
    note run = deleteTodo_done [OF oid None, of s]
    have removed: "length (docs s) - length (deleteFirst oid (docs s)) = 0
        \<longleftrightarrow> oid \<notin> todoModel.ID ` set (docs s)"
    proof (cases "oid \<in> todoModel.ID ` set (docs s)")
      case True
      then have "Suc (length (deleteFirst oid (docs s))) = length (docs s)"
        by (rule length_deleteFirst)
      with True show ?thesis by arith
    next
      case False
      then show ?thesis by (simp add: deleteFirst_absent)
    qed
    have first: "status (fst (deleteTodo e r s)) =
        (if length (docs s) - length (docs (snd (deleteTodo e r s))) = 0 then 404 else 200)"
      using removed by (simp add: run logCall_def JSON_def marshals_def)
    have second: "status (fst (deleteTodo e' r (snd (deleteTodo e r s)))) = 404"
      if "uniqueIDs s" and "storeErr e' = None"
    proof -
      from that(1) have "oid \<notin> todoModel.ID ` set (deleteFirst oid (docs s))"
        unfolding uniqueIDs_def by (rule deleteFirst_removes)
      then show ?thesis
        by (simp add: run deleteTodo_done [OF oid that(2)] logCall_def JSON_def marshals_def)
    qed
    from True None first second show ?thesis by simp
  qed
qed

theorem deleteTodo_status_code_witness:
  "uniqueIDs sampleStore
   \<and> storeErr sampleEnv = None
   \<and> status (fst (deleteTodo sampleEnv
        \<lparr>idParam = ''507f1f77bcf86cd799439011'', decoded = None\<rparr> sampleStore)) = 200
   \<and> status (fst (deleteTodo sampleEnv
        \<lparr>idParam = ''507f1f77bcf86cd799439011'', decoded = None\<rparr>
        (snd (deleteTodo sampleEnv
          \<lparr>idParam = ''507f1f77bcf86cd799439011'', decoded = None\<rparr> sampleStore)))) = 404"
proof -
  have u: "uniqueIDs sampleStore"
    by (simp add: uniqueIDs_def sampleStore_def sampleRecord_def otherRecord_def sampleID_def)
  have e: "storeErr sampleEnv = None"
    by (simp add: sampleEnv_def)
  have oid: "ObjectIDFromHex (TrimSpace (idParam
      \<lparr>idParam = ''507f1f77bcf86cd799439011'', decoded = None\<rparr>)) = Inr sampleID"
    by (simp add: sample_TrimSpace sample_ObjectIDFromHex)
  have first: "status (fst (deleteTodo sampleEnv
      \<lparr>idParam = ''507f1f77bcf86cd799439011'', decoded = None\<rparr> sampleStore)) = 200"
    by (simp add: deleteTodo_done [OF oid e] JSON_def marshals_def sampleStore_def sampleRecord_def)
  from u e first show ?thesis
    using deleteTodo_status_code
      [of sampleEnv "\<lparr>idParam = ''507f1f77bcf86cd799439011'', decoded = None\<rparr>"
        sampleStore sampleEnv]
    by simp
qed

text \<open>
  The identifier \<^verbatim>\<open>507f1f77bcf86cd799439011\<close> with a blank on each side is not a valid
  identifier as it stands, and Delete answers 200 to it, not 400.
\<close>

theorem deleteTodo_padded_identifier:
  "\<not> IsValidObjectID '' 507f1f77bcf86cd799439011 ''
   \<and> status (fst (deleteTodo sampleEnv
        \<lparr>idParam = '' 507f1f77bcf86cd799439011 '', decoded = None\<rparr> sampleStore)) = 200"
proof -
  have e: "storeErr sampleEnv = None"
    by (simp add: sampleEnv_def)
  have oid: "ObjectIDFromHex (TrimSpace (idParam
      \<lparr>idParam = '' 507f1f77bcf86cd799439011 '', decoded = None\<rparr>)) = Inr sampleID"
    by (simp add: padded_TrimSpace sample_ObjectIDFromHex)
  show ?thesis
    by (simp add: padded_invalid deleteTodo_done [OF oid e] JSON_def marshals_def sampleStore_def
        sampleRecord_def)
qed

section \<open>The identifier check comes before the store\<close>

text \<open>
  C7, as amended. When the identifier of the path, once the white space around it is
  trimmed, is not a valid identifier, Update and Delete answer 400 and the store is as it
  was, its log of calls included: no store call was made.
\<close>

theorem invalid_identifier_no_store_call:
  assumes "\<not> IsValidObjectID (TrimSpace (idParam r))"
  shows "status (fst (updateTodo e r s)) = 400 \<and> snd (updateTodo e r s) = s
    \<and> status (fst (deleteTodo e r s)) = 400 \<and> snd (deleteTodo e r s) = s"
  using assms by (simp add: updateTodo_invalid deleteTodo_invalid JSON_def marshals_def)

theorem invalid_identifier_no_store_call_witness:
  "\<not> IsValidObjectID (TrimSpace ''not-an-id'')
   \<and> status (fst (updateTodo sampleEnv
        \<lparr>idParam = ''not-an-id'', decoded = Some sampleBody\<rparr> sampleStore)) = 400
   \<and> snd (updateTodo sampleEnv
        \<lparr>idParam = ''not-an-id'', decoded = Some sampleBody\<rparr> sampleStore) = sampleStore
   \<and> status (fst (deleteTodo sampleEnv
        \<lparr>idParam = ''not-an-id'', decoded = Some sampleBody\<rparr> sampleStore)) = 400
   \<and> snd (deleteTodo sampleEnv
        \<lparr>idParam = ''not-an-id'', decoded = Some sampleBody\<rparr> sampleStore) = sampleStore"
  using not_an_id_invalid
    invalid_identifier_no_store_call
      [of "\<lparr>idParam = ''not-an-id'', decoded = Some sampleBody\<rparr>" sampleEnv sampleStore]
  by simp

text \<open>
  The identifier \<^verbatim>\<open>507f1f77bcf86cd799439011\<close> followed by a blank is not a valid identifier
  as it stands, and Update answers 200 to it after calling the store.
\<close>

theorem updateTodo_padded_identifier:
  "\<not> IsValidObjectID ''507f1f77bcf86cd799439011 ''
   \<and> status (fst (updateTodo sampleEnv
        \<lparr>idParam = ''507f1f77bcf86cd799439011 '', decoded = Some sampleBody\<rparr> sampleStore)) = 200
   \<and> calls (snd (updateTodo sampleEnv
        \<lparr>idParam = ''507f1f77bcf86cd799439011 '', decoded = Some sampleBody\<rparr> sampleStore))
     = [CallUpdateOne sampleID
          [(''$set'', BDoc [(''title'', BString ''Buy milk''), (''completed'', BBool True)])]]"
proof -
  have oid: "ObjectIDFromHex (TrimSpace (idParam
      \<lparr>idParam = ''507f1f77bcf86cd799439011 '', decoded = Some sampleBody\<rparr>)) = Inr sampleID"
    by (simp add: padded_TrimSpace sample_ObjectIDFromHex)
  have b: "decoded \<lparr>idParam = ''507f1f77bcf86cd799439011 '', decoded = Some sampleBody\<rparr>
      = Some sampleBody" "todo.Title sampleBody \<noteq> []"
    by (simp_all add: sampleBody_def)
  note run = updateTodo_accepted [OF oid b, of sampleEnv sampleStore]
  show ?thesis
    unfolding run
    by (simp add: padded_invalid JSON_def marshals_def logCall_def sampleEnv_def sampleStore_def
        sampleBody_def)
qed

section \<open>What List returns\<close>




section \<open>Create, then List\<close>

lemma createTodos_saved:
  assumes "status (fst (createTodos e r s)) = 200" and "newObjectID e \<noteq> NilObjectID"
  shows "\<exists>t. decoded r = Some t \<and> todo.Title t \<noteq> [] \<and> storeErr e = None
    \<and> newObjectID e \<notin> todoModel.ID ` set (docs s)
    \<and> createTodos e r s =
        (JSON 200 [(''message'', JString ''Todo successfully saved''),
                   (''Todo ID'', JString (Hex (newObjectID e)))],
         logCall (CallInsertOne \<lparr>doc_id = Some (newObjectID e), doc_title = todo.Title t,
                                 doc_completed = False, doc_createAt = now e\<rparr>)
           (s\<lparr>docs := docs s @
              [\<lparr>todoModel.ID = newObjectID e, todoModel.Title = todo.Title t,
                todoModel.Completed = False, CreateAt = now e\<rparr>]\<rparr>))"
proof (cases "decoded r")
  case None
  with assms(1) show ?thesis
    by (simp add: createTodos_def JSON_def marshals_def StatusBadRequest_def)
next
  case (Some t)
  show ?thesis
  proof (cases "todo.Title t = []")
    case True
    with Some assms(1) show ?thesis
      by (simp add: createTodos_def JSON_def marshals_def StatusBadRequest_def)
  next
    case False
    from assms(2) have d: "marshal \<lparr>todoModel.ID = newObjectID e, todoModel.Title = todo.Title t,
        todoModel.Completed = False, CreateAt = now e\<rparr>
      = \<lparr>doc_id = Some (newObjectID e), doc_title = todo.Title t,
         doc_completed = False, doc_createAt = now e\<rparr>"
      by (simp add: marshal_def)
    from assms(1) Some False show ?thesis
      unfolding createTodos_accepted [OF Some False] Let_def d
      by (auto simp: InsertOne_def JSON_def marshals_def Let_def split: option.splits if_splits)
  qed
qed

lemma filter_views_fresh:
  assumes "oid \<notin> todoModel.ID ` set ds"
  shows "filter (\<lambda>x. todo.ID x = Hex oid) (map toView ds) = []"
proof -
  have "todo.ID (toView d) \<noteq> Hex oid" if "d \<in> set ds" for d
  proof
    assume "todo.ID (toView d) = Hex oid"
    then have "Hex (todoModel.ID d) = Hex oid" by (simp add: toView_def)
    then have "todoModel.ID d = oid" by (rule Hex_inject)
    with that assms show False by blast
  qed
  then show ?thesis by (simp add: filter_empty_conv)
qed

text \<open>
  C1. When a create request whose body decodes, with a title that is not empty, is
  answered with 200, the identifier of the answer is the hexadecimal form of the
  identifier the handler generated, and a List that follows, the store answering, returns
  an array in which exactly one record has that identifier: its title is the title
  submitted and its completed flag is false, whatever flag the request carried. The
  identifier generated is taken to differ from the zero identifier, which the tag
  \<^verbatim>\<open>omitempty\<close> would leave out of the document, and the creation times of the collection
  List reads are taken to lie in the years 0 to 9999, so that List has a body to send.
\<close>

theorem create_then_list:
  assumes "decoded r = Some t" and "todo.Title t \<noteq> []"
    and "newObjectID e \<noteq> NilObjectID"
    and "status (fst (createTodos e r s)) = 200"
    and "storeErr e' = None" and "allErr e' = None"
    and "timesInRange (snd (createTodos e r s))"
  shows "body (fst (createTodos e r s)) =
      Some [(''message'', JString ''Todo successfully saved''),
            (''Todo ID'', JString (Hex (newObjectID e)))]
    \<and> (\<exists>vs v. fst (fetchTodos e' r' (snd (createTodos e r s)))
            = \<lparr>status = 200, body = Some [(''data'', JArray vs)]\<rparr>
          \<and> filter (\<lambda>x. todo.ID x = Hex (newObjectID e)) vs = [v]
          \<and> todo.Title v = todo.Title t \<and> todo.Completed v = False)"
proof -
  from createTodos_saved [OF assms(4,3)] assms(1)
  have fresh: "newObjectID e \<notin> todoModel.ID ` set (docs s)"
    and run: "createTodos e r s =
        (JSON 200 [(''message'', JString ''Todo successfully saved''),
                   (''Todo ID'', JString (Hex (newObjectID e)))],
         logCall (CallInsertOne \<lparr>doc_id = Some (newObjectID e), doc_title = todo.Title t,
                                 doc_completed = False, doc_createAt = now e\<rparr>)
           (s\<lparr>docs := docs s @
              [\<lparr>todoModel.ID = newObjectID e, todoModel.Title = todo.Title t,
                todoModel.Completed = False, CreateAt = now e\<rparr>]\<rparr>))"
    by auto
  let ?rec = "\<lparr>todoModel.ID = newObjectID e, todoModel.Title = todo.Title t,
                todoModel.Completed = False, CreateAt = now e\<rparr>"
  have stored: "docs (snd (createTodos e r s)) = docs s @ [?rec]"
    by (simp add: run logCall_def)
  have "fst (fetchTodos e' r' (snd (createTodos e r s)))
      = \<lparr>status = 200,
         body = Some [(''data'', JArray (map toView (docs (snd (createTodos e r s)))))]\<rparr>"
    unfolding fetchTodos_eq JSON_data using assms(5,6,7) stored by simp
  then have list: "fst (fetchTodos e' r' (snd (createTodos e r s)))
      = \<lparr>status = 200,
         body = Some [(''data'', JArray (map toView (docs s) @ [toView ?rec]))]\<rparr>"
    by (simp add: stored)
  have pick: "filter (\<lambda>x. todo.ID x = Hex (newObjectID e)) (map toView (docs s) @ [toView ?rec])
      = [toView ?rec]"
    using filter_views_fresh [OF fresh] by (simp add: toView_def)
  have view: "todo.Title (toView ?rec) = todo.Title t" "todo.Completed (toView ?rec) = False"
    by (simp_all add: toView_def)
  from list pick view show ?thesis
    by (simp add: run JSON_def marshals_def)
qed

theorem create_then_list_witness:
  "decoded \<lparr>idParam = [], decoded = Some sampleBody\<rparr> = Some sampleBody
   \<and> todo.Title sampleBody = ''Buy milk'' \<and> todo.Completed sampleBody = True
   \<and> newObjectID sampleEnv \<noteq> NilObjectID
   \<and> timesInRange
        (snd (createTodos sampleEnv \<lparr>idParam = [], decoded = Some sampleBody\<rparr> emptyStore))
   \<and> fst (createTodos sampleEnv \<lparr>idParam = [], decoded = Some sampleBody\<rparr> emptyStore) =
       \<lparr>status = 200,
        body = Some [(''message'', JString ''Todo successfully saved''),
                     (''Todo ID'', JString ''507f1f77bcf86cd799439011'')]\<rparr>
   \<and> fst (fetchTodos sampleEnv \<lparr>idParam = [], decoded = None\<rparr>
        (snd (createTodos sampleEnv \<lparr>idParam = [], decoded = Some sampleBody\<rparr> emptyStore))) =
       \<lparr>status = 200,
        body = Some [(''data'', JArray
          [\<lparr>todo.ID = ''507f1f77bcf86cd799439011'', todo.Title = ''Buy milk'',
            todo.Completed = False, CreatedAt = 1000\<rparr>])]\<rparr>
   \<and> (\<exists>vs v. fst (fetchTodos sampleEnv \<lparr>idParam = [], decoded = None\<rparr>
          (snd (createTodos sampleEnv \<lparr>idParam = [], decoded = Some sampleBody\<rparr> emptyStore)))
            = \<lparr>status = 200, body = Some [(''data'', JArray vs)]\<rparr>
          \<and> filter (\<lambda>x. todo.ID x = Hex (newObjectID sampleEnv)) vs = [v]
          \<and> todo.Title v = todo.Title sampleBody \<and> todo.Completed v = False)"
proof -
  have hex: "Hex sampleID = ''507f1f77bcf86cd799439011''"
    by (simp add: Hex_def encodeByte_def hextable_def sampleID_def)
  have nz: "newObjectID sampleEnv \<noteq> NilObjectID"
    by (simp add: sampleEnv_def sampleID_def NilObjectID_def)
  have run: "createTodos sampleEnv \<lparr>idParam = [], decoded = Some sampleBody\<rparr> emptyStore =
      (\<lparr>status = 200,
        body = Some [(''message'', JString ''Todo successfully saved''),
                     (''Todo ID'', JString ''507f1f77bcf86cd799439011'')]\<rparr>,
       \<lparr>docs = [sampleRecord],
        calls = [CallInsertOne \<lparr>doc_id = Some sampleID, doc_title = ''Buy milk'',
                                doc_completed = False, doc_createAt = 1000\<rparr>]\<rparr>)"
    using nz
    by (simp add: createTodos_def marshal_def InsertOne_def logCall_def JSON_def marshals_def StatusOK_def
        hex sampleEnv_def sampleBody_def emptyStore_def sampleRecord_def Let_def)
  have tr: "timesInRange
      (snd (createTodos sampleEnv \<lparr>idParam = [], decoded = Some sampleBody\<rparr> emptyStore))"
    unfolding run by (simp add: timesInRange_def jsonTime_def sampleRecord_def)
  have list: "fst (fetchTodos sampleEnv \<lparr>idParam = [], decoded = None\<rparr>
        (snd (createTodos sampleEnv \<lparr>idParam = [], decoded = Some sampleBody\<rparr> emptyStore))) =
       \<lparr>status = 200,
        body = Some [(''data'', JArray
          [\<lparr>todo.ID = ''507f1f77bcf86cd799439011'', todo.Title = ''Buy milk'',
            todo.Completed = False, CreatedAt = 1000\<rparr>])]\<rparr>"
    unfolding run
    by (simp add: fetchTodos_eq JSON_def marshals_def jsonTime_def toView_def hex sampleEnv_def
        sampleRecord_def)
  have st: "status (fst (createTodos sampleEnv
      \<lparr>idParam = [], decoded = Some sampleBody\<rparr> emptyStore)) = 200"
    by (simp add: run)
  have b: "decoded \<lparr>idParam = [], decoded = Some sampleBody\<rparr> = Some sampleBody"
      "todo.Title sampleBody \<noteq> []"
      "storeErr sampleEnv = None" "allErr sampleEnv = None"
    by (simp_all add: sampleBody_def sampleEnv_def)
  from create_then_list [OF b(1,2) nz st b(3,4) tr, of "\<lparr>idParam = [], decoded = None\<rparr>"]
  have ex: "\<exists>vs v. fst (fetchTodos sampleEnv \<lparr>idParam = [], decoded = None\<rparr>
          (snd (createTodos sampleEnv \<lparr>idParam = [], decoded = Some sampleBody\<rparr> emptyStore)))
            = \<lparr>status = 200, body = Some [(''data'', JArray vs)]\<rparr>
          \<and> filter (\<lambda>x. todo.ID x = Hex (newObjectID sampleEnv)) vs = [v]
          \<and> todo.Title v = todo.Title sampleBody \<and> todo.Completed v = False"
    by blast
  have t: "todo.Title sampleBody = ''Buy milk''" "todo.Completed sampleBody = True"
    by (simp_all add: sampleBody_def)
  from b(1) t nz tr list ex show ?thesis
    by (simp only: run fst_conv simp_thms)
qed

section \<open>Where the identifier of a record comes from\<close>

lemma updateTodo_keeps_ids:
  "map todoModel.ID (docs (snd (updateTodo e r s))) = map todoModel.ID (docs s)"
  by (simp add: updateTodo_def UpdateOne_def logCall_def Let_def map_ID_updateFirst
      split: option.splits)

lemma createTodos_keeps_docs: "prefix (docs s) (docs (snd (createTodos e r s)))"
  by (simp add: createTodos_def InsertOne_def logCall_def Let_def split: option.splits)

lemma subseq_deleteFirst: "subseq (deleteFirst oid ds) ds"
  by (induction ds) auto

lemma deleteTodo_keeps_docs: "subseq (docs (snd (deleteTodo e r s))) (docs s)"
  by (simp add: deleteTodo_def DeleteOne_def logCall_def Let_def subseq_deleteFirst
      split: option.splits)

text \<open>
  C3, as amended. The identifier of a record is generated by the handler, with
  \<^verbatim>\<open>primitive.NewObjectID()\<close>, before the insert: when Create answers 200, having generated an
  identifier that is not the zero identifier, the document it submitted to the store carries
  that identifier, the record stored has it, and the answer returns its hexadecimal form.
  The identifier of a stored record never changes afterwards: an update keeps the
  identifiers of all records, in their order, a create keeps the records there are and
  adds its own after them, a delete only removes.
\<close>

theorem createTodos_identifier:
  assumes "status (fst (createTodos e r s)) = 200" and "newObjectID e \<noteq> NilObjectID"
  shows "\<exists>t. decoded r = Some t
    \<and> calls (snd (createTodos e r s)) = calls s @
        [CallInsertOne \<lparr>doc_id = Some (newObjectID e), doc_title = todo.Title t,
                        doc_completed = False, doc_createAt = now e\<rparr>]
    \<and> docs (snd (createTodos e r s)) = docs s @
        [\<lparr>todoModel.ID = newObjectID e, todoModel.Title = todo.Title t,
          todoModel.Completed = False, CreateAt = now e\<rparr>]
    \<and> body (fst (createTodos e r s)) =
        Some [(''message'', JString ''Todo successfully saved''),
              (''Todo ID'', JString (Hex (newObjectID e)))]
    \<and> (\<forall>e' r' s'. map todoModel.ID (docs (snd (updateTodo e' r' s')))
          = map todoModel.ID (docs s'))
    \<and> (\<forall>e' r' s'. prefix (docs s') (docs (snd (createTodos e' r' s'))))
    \<and> (\<forall>e' r' s'. subseq (docs (snd (deleteTodo e' r' s'))) (docs s'))"
proof -
  from createTodos_saved [OF assms] obtain t where t: "decoded r = Some t"
    and run: "createTodos e r s =
        (JSON 200 [(''message'', JString ''Todo successfully saved''),
                   (''Todo ID'', JString (Hex (newObjectID e)))],
         logCall (CallInsertOne \<lparr>doc_id = Some (newObjectID e), doc_title = todo.Title t,
                                 doc_completed = False, doc_createAt = now e\<rparr>)
           (s\<lparr>docs := docs s @
              [\<lparr>todoModel.ID = newObjectID e, todoModel.Title = todo.Title t,
                todoModel.Completed = False, CreateAt = now e\<rparr>]\<rparr>))"
    by blast
  from t show ?thesis
    by (simp add: run logCall_def JSON_def marshals_def updateTodo_keeps_ids createTodos_keeps_docs
        deleteTodo_keeps_docs)
qed

theorem createTodos_identifier_witness:
  "status (fst (createTodos sampleEnv
      \<lparr>idParam = [], decoded = Some sampleBody\<rparr> otherStore)) = 200
   \<and> newObjectID sampleEnv \<noteq> NilObjectID
   \<and> docs (snd (createTodos sampleEnv
      \<lparr>idParam = [], decoded = Some sampleBody\<rparr> otherStore))
     = [otherRecord, sampleRecord]
   \<and> (\<exists>t. decoded \<lparr>idParam = [], decoded = Some sampleBody\<rparr> = Some t
        \<and> calls (snd (createTodos sampleEnv
            \<lparr>idParam = [], decoded = Some sampleBody\<rparr> otherStore))
          = calls otherStore @
            [CallInsertOne \<lparr>doc_id = Some (newObjectID sampleEnv), doc_title = todo.Title t,
                            doc_completed = False, doc_createAt = now sampleEnv\<rparr>])"
proof -
  have nz: "newObjectID sampleEnv \<noteq> NilObjectID"
    by (simp add: sampleEnv_def sampleID_def NilObjectID_def)
  have run: "createTodos sampleEnv \<lparr>idParam = [], decoded = Some sampleBody\<rparr>
        otherStore =
      (JSON 200 [(''message'', JString ''Todo successfully saved''),
                 (''Todo ID'', JString (Hex sampleID))],
       \<lparr>docs = [otherRecord, sampleRecord],
        calls = [CallInsertOne \<lparr>doc_id = Some sampleID, doc_title = ''Buy milk'',
                                doc_completed = False, doc_createAt = 1000\<rparr>]\<rparr>)"
    using nz
    by (simp add: createTodos_def marshal_def InsertOne_def logCall_def StatusOK_def
        sampleEnv_def sampleBody_def otherStore_def sampleRecord_def otherRecord_def
        sampleID_def Let_def)
  have st: "status (fst (createTodos sampleEnv
      \<lparr>idParam = [], decoded = Some sampleBody\<rparr> otherStore)) = 200"
    by (simp add: run JSON_def marshals_def)
  from createTodos_identifier [OF st nz] st nz show ?thesis
    by (auto simp: run)
qed

text \<open>
  The document Create submits for the sample request carries the identifier the handler
  generated, and the record is stored under it, not under the one the driver would have
  given to a document without identifier.
\<close>

theorem createTodos_submits_identifier:
  "calls (snd (createTodos sampleEnv \<lparr>idParam = [], decoded = Some sampleBody\<rparr> emptyStore))
     = [CallInsertOne \<lparr>doc_id = Some sampleID, doc_title = ''Buy milk'',
                       doc_completed = False, doc_createAt = 1000\<rparr>]
   \<and> map todoModel.ID
       (docs (snd (createTodos sampleEnv \<lparr>idParam = [], decoded = Some sampleBody\<rparr> emptyStore)))
     = [newObjectID sampleEnv]
   \<and> newObjectID sampleEnv \<noteq> driverID sampleEnv"
  by (simp add: createTodos_def marshal_def InsertOne_def logCall_def NilObjectID_def
      sampleEnv_def sampleBody_def emptyStore_def sampleID_def Let_def)

section \<open>White space around the identifier\<close>

text \<open>
  C10. Update and Delete trim the white space around the identifier of the path before
  they validate it: on any identifier they answer, and leave the store, exactly as on its
  trimmed form. So a valid identifier with white space before and after it is handled as
  the identifier itself: Delete does not reject it with 400, nor does Update when the body
  decodes with a title that is not empty.
\<close>

theorem handlers_trim_identifier:
  "deleteTodo e (r\<lparr>idParam := TrimSpace (idParam r)\<rparr>) s = deleteTodo e r s
   \<and> updateTodo e (r\<lparr>idParam := TrimSpace (idParam r)\<rparr>) s = updateTodo e r s
   \<and> (IsValidObjectID h \<longrightarrow> onlySpace l \<longrightarrow> onlySpace t \<longrightarrow> idParam r = l @ h @ t
        \<longrightarrow> deleteTodo e r s = deleteTodo e (r\<lparr>idParam := h\<rparr>) s
            \<and> updateTodo e r s = updateTodo e (r\<lparr>idParam := h\<rparr>) s
            \<and> status (fst (deleteTodo e r s)) \<noteq> 400
            \<and> (decoded r = Some b \<longrightarrow> todo.Title b \<noteq> []
                 \<longrightarrow> status (fst (updateTodo e r s)) \<noteq> 400))"
proof -
  have same: "deleteTodo e (r\<lparr>idParam := TrimSpace (idParam r)\<rparr>) s = deleteTodo e r s"
      "updateTodo e (r\<lparr>idParam := TrimSpace (idParam r)\<rparr>) s = updateTodo e r s"
    by (simp_all add: deleteTodo_def updateTodo_def TrimSpace_idem Let_def)
  have padded: "deleteTodo e r s = deleteTodo e (r\<lparr>idParam := h\<rparr>) s
      \<and> updateTodo e r s = updateTodo e (r\<lparr>idParam := h\<rparr>) s
      \<and> status (fst (deleteTodo e r s)) \<noteq> 400
      \<and> (decoded r = Some b \<longrightarrow> todo.Title b \<noteq> []
           \<longrightarrow> status (fst (updateTodo e r s)) \<noteq> 400)"
    if h: "IsValidObjectID h" and l: "onlySpace l" and t: "onlySpace t"
      and r: "idParam r = l @ h @ t"
  proof -
    from h l t have "TrimSpace (l @ h @ t) = h"
      by (simp add: TrimSpace_padded onlySpace_def)
    with r have trim: "TrimSpace (idParam r) = h" by simp
    from h obtain oid where "ObjectIDFromHex h = Inr oid"
      by (auto simp: IsValidObjectID_iff)
    with trim have oid: "ObjectIDFromHex (TrimSpace (idParam r)) = Inr oid" by simp
    have del: "status (fst (deleteTodo e r s)) \<noteq> 400"
      by (cases "storeErr e")
        (simp_all add: deleteTodo_done [OF oid] deleteTodo_failed [OF oid] JSON_def marshals_def)
    have upd: "status (fst (updateTodo e r s)) \<noteq> 400"
      if "decoded r = Some b" and "todo.Title b \<noteq> []"
      by (cases "storeErr e") (simp_all add: updateTodo_accepted [OF oid that] JSON_def marshals_def)
    from same trim del upd show ?thesis by metis
  qed
  from same padded show ?thesis by blast
qed

theorem handlers_trim_identifier_witness:
  "IsValidObjectID ''507f1f77bcf86cd799439011''
   \<and> onlySpace [CHR 0xC2, CHR 0xA0, CHR 0x20] \<and> onlySpace [CHR 0x0A]
   \<and> paddedID = [CHR 0xC2, CHR 0xA0, CHR 0x20] @ ''507f1f77bcf86cd799439011'' @ [CHR 0x0A]
   \<and> \<not> IsValidObjectID paddedID
   \<and> deleteTodo sampleEnv \<lparr>idParam = paddedID, decoded = Some sampleBody\<rparr> sampleStore
     = deleteTodo sampleEnv
        \<lparr>idParam = ''507f1f77bcf86cd799439011'', decoded = Some sampleBody\<rparr> sampleStore
   \<and> updateTodo sampleEnv \<lparr>idParam = paddedID, decoded = Some sampleBody\<rparr> sampleStore
     = updateTodo sampleEnv
        \<lparr>idParam = ''507f1f77bcf86cd799439011'', decoded = Some sampleBody\<rparr> sampleStore
   \<and> status (fst (deleteTodo sampleEnv
        \<lparr>idParam = paddedID, decoded = Some sampleBody\<rparr> sampleStore)) \<noteq> 400
   \<and> status (fst (updateTodo sampleEnv
        \<lparr>idParam = paddedID, decoded = Some sampleBody\<rparr> sampleStore)) \<noteq> 400"
proof -
  let ?r = "\<lparr>idParam = paddedID, decoded = Some sampleBody\<rparr>"
  have b: "decoded ?r = Some sampleBody" "todo.Title sampleBody \<noteq> []"
    by (simp_all add: sampleBody_def)
  have l: "onlySpace [CHR 0xC2, CHR 0xA0, CHR 0x20]"
    by (simp add: onlySpace_def TrimLeft.simps TrimRight.simps leadingSpace_def
        trailingSpace_def spaceEncodings_def)
  have t: "onlySpace [CHR 0x0A]"
    by (simp add: onlySpace_def TrimLeft.simps TrimRight.simps leadingSpace_def
        trailingSpace_def spaceEncodings_def)
  have p: "paddedID = [CHR 0xC2, CHR 0xA0, CHR 0x20] @ ''507f1f77bcf86cd799439011'' @ [CHR 0x0A]"
    by (simp add: paddedID_def)
  then have r: "idParam ?r
      = [CHR 0xC2, CHR 0xA0, CHR 0x20] @ ''507f1f77bcf86cd799439011'' @ [CHR 0x0A]"
    by simp
  have n: "\<not> IsValidObjectID paddedID"
    by (simp add: paddedID_def IsValidObjectID_def ObjectIDFromHex_def)
  have u: "?r\<lparr>idParam := ''507f1f77bcf86cd799439011''\<rparr>
      = \<lparr>idParam = ''507f1f77bcf86cd799439011'', decoded = Some sampleBody\<rparr>"
    by simp
  from handlers_trim_identifier
    [of sampleEnv ?r sampleStore "''507f1f77bcf86cd799439011''"
      "[CHR 0xC2, CHR 0xA0, CHR 0x20]" "[CHR 0x0A]" sampleBody]
    sample_valid l t r b
  have "deleteTodo sampleEnv ?r sampleStore
        = deleteTodo sampleEnv (?r\<lparr>idParam := ''507f1f77bcf86cd799439011''\<rparr>) sampleStore
      \<and> updateTodo sampleEnv ?r sampleStore
        = updateTodo sampleEnv (?r\<lparr>idParam := ''507f1f77bcf86cd799439011''\<rparr>) sampleStore
      \<and> status (fst (deleteTodo sampleEnv ?r sampleStore)) \<noteq> 400
      \<and> status (fst (updateTodo sampleEnv ?r sampleStore)) \<noteq> 400"
    by blast
  with sample_valid l t p n show ?thesis
    unfolding u by blast
qed

end
